theory Spec2Isabelle
  imports Main "HOL-Library.Sublist" "HOL-Library.Word"
begin

section \<open>Traffic interception and protocol decoding: a shallow embedding\<close>

text \<open>
  The TypeScript of the hook, filter and protobuf chapters is embedded function by
  function.  A class becomes a record of its fields and every method a function from
  the old record to the new one; a thrown error is a value of \<open>js_error\<close> on the left
  of a sum; a JavaScript \<open>Map\<close> is an association list in insertion order.  Built-ins
  whose code is not part of the repository (\<open>JSON.parse\<close>, \<open>JSON.stringify\<close>,
  \<open>RegExp\<close>, the protobufjs decoder, the original \<open>fetch\<close>) are parameters of the
  functions that call them.  Strings are lists of 8-bit characters; case mapping and the
  character classes \<open>\s\<close> and \<open>\w\<close> are the ASCII ones.
\<close>

subsection \<open>JavaScript values, errors, strings and maps\<close>

datatype js_error =
    ErrorObj string string
  | Thrown string

datatype jsval =
    JUndefined
  | JNull
  | JBool bool
  | JNum int
  | JStr string
  | JBuffer string
  | JArr "jsval list"
  | JObj "(string \<times> jsval) list"

text \<open>Truthiness as \<open>if (v)\<close>, \<open>!v\<close> and \<open>v || w\<close> test it.\<close>

fun truthy :: "jsval \<Rightarrow> bool" where
  "truthy JUndefined = False"
| "truthy JNull = False"
| "truthy (JBool b) = b"
| "truthy (JNum n) = (n \<noteq> 0)"
| "truthy (JStr s) = (s \<noteq> [])"
| "truthy (JBuffer s) = True"
| "truthy (JArr xs) = True"
| "truthy (JObj fs) = True"

definition char_toLower :: "char \<Rightarrow> char" where
  "char_toLower c =
     (let n = of_char c :: nat in if 65 \<le> n \<and> n \<le> 90 then char_of (n + 32) else c)"

definition char_toUpper :: "char \<Rightarrow> char" where
  "char_toUpper c =
     (let n = of_char c :: nat in if 97 \<le> n \<and> n \<le> 122 then char_of (n - 32) else c)"

definition toLowerCase :: "string \<Rightarrow> string" where
  "toLowerCase s = map char_toLower s"

definition toUpperCase :: "string \<Rightarrow> string" where
  "toUpperCase s = map char_toUpper s"

text \<open>\<open>s.startsWith(t)\<close> and \<open>s.includes(t)\<close>.\<close>

fun startsWith :: "string \<Rightarrow> string \<Rightarrow> bool" where
  "startsWith s [] = True"
| "startsWith [] (c # t) = False"
| "startsWith (d # s) (c # t) = (d = c \<and> startsWith s t)"

fun str_includes :: "string \<Rightarrow> string \<Rightarrow> bool" where
  "str_includes [] t = (t = [])"
| "str_includes (d # s) t = (startsWith (d # s) t \<or> str_includes s t)"

text \<open>
  A \<open>Map\<close> iterates in insertion order; \<open>set\<close> on a key that is present replaces the
  value and keeps the key's place.
\<close>

type_synonym ('k, 'v) js_map = "('k \<times> 'v) list"

text \<open>Bytes, and the two kinds of object that carry them to a decoder.\<close>

type_synonym bytes = "8 word list"

datatype js_buffer = ArrayBuffer bytes | Uint8Array bytes

fun map_get :: "('k, 'v) js_map \<Rightarrow> 'k \<Rightarrow> 'v option" where
  "map_get [] k = None"
| "map_get ((k', v) # m) k = (if k' = k then Some v else map_get m k)"

fun map_set :: "'k \<Rightarrow> 'v \<Rightarrow> ('k, 'v) js_map \<Rightarrow> ('k, 'v) js_map" where
  "map_set k v [] = [(k, v)]"
| "map_set k v ((k', v') # m) = (if k' = k then (k, v) # m else (k', v') # map_set k v m)"

definition map_delete :: "'k \<Rightarrow> ('k, 'v) js_map \<Rightarrow> ('k, 'v) js_map" where
  "map_delete k m = filter (\<lambda>entry. fst entry \<noteq> k) m"

definition map_size :: "('k, 'v) js_map \<Rightarrow> nat" where
  "map_size m = length m"

definition map_keys :: "('k, 'v) js_map \<Rightarrow> 'k list" where
  "map_keys m = map fst m"

subsection \<open>The recorded events\<close>

text \<open>\<open>XHREvent\<close> and \<open>FetchEvent\<close> declare the same eight fields.\<close>

record http_event =
  url :: string
  http_method :: string
  requestHeaders :: "(string, string) js_map"
  requestBody :: jsval
  responseHeaders :: "(string, string) js_map"
  responseBody :: jsval
  status :: int
  timestamp :: int

datatype ws_event_type = WsOpen | WsClose | WsMessage | WsSend | WsError

record ws_event =
  ws_url :: string
  ws_type :: ws_event_type
  ws_message :: "jsval option"
  ws_raw :: "string option"
  ws_code :: "int option"
  ws_reason :: "string option"
  ws_timestamp :: int

subsection \<open>AdvancedXHRHook, AdvancedFetchHook, AdvancedWebSocketHook: the event buffers\<close>

record xhr_hook =
  xhr_events :: "http_event list"
  maxEvents :: nat

definition new_xhr_hook :: xhr_hook where
  "new_xhr_hook = \<lparr>xhr_events = [], maxEvents = 1000\<rparr>"

text \<open>\<open>this.events.push(event); if (this.events.length > this.maxEvents) this.events.shift();\<close>\<close>

definition xhr_recordEvent :: "xhr_hook \<Rightarrow> http_event \<Rightarrow> xhr_hook" where
  "xhr_recordEvent h e =
     (let h1 = h\<lparr>xhr_events := xhr_events h @ [e]\<rparr>
      in if length (xhr_events h1) > maxEvents h1
         then h1\<lparr>xhr_events := tl (xhr_events h1)\<rparr>
         else h1)"

definition xhr_getEvents :: "xhr_hook \<Rightarrow> http_event list" where
  "xhr_getEvents h = xhr_events h"

definition xhr_clearEvents :: "xhr_hook \<Rightarrow> xhr_hook" where
  "xhr_clearEvents h = h\<lparr>xhr_events := []\<rparr>"

record fetch_partial =
  p_url :: string
  p_method :: string
  p_requestHeaders :: "(string, string) js_map"
  p_requestBody :: jsval
  p_timestamp :: int

record fetch_hook =
  fetch_events :: "http_event list"
  interceptors :: "(fetch_partial \<Rightarrow> js_error + bool) list"

definition new_fetch_hook :: fetch_hook where
  "new_fetch_hook = \<lparr>fetch_events = [], interceptors = []\<rparr>"

text \<open>\<open>this.events.push(event); if (this.events.length > 1000) this.events.shift();\<close>\<close>

definition fetch_recordEvent :: "fetch_hook \<Rightarrow> http_event \<Rightarrow> fetch_hook" where
  "fetch_recordEvent h e =
     (let h1 = h\<lparr>fetch_events := fetch_events h @ [e]\<rparr>
      in if length (fetch_events h1) > 1000
         then h1\<lparr>fetch_events := tl (fetch_events h1)\<rparr>
         else h1)"

definition fetch_getEvents :: "fetch_hook \<Rightarrow> http_event list" where
  "fetch_getEvents h = fetch_events h"

definition addInterceptor ::
  "fetch_hook \<Rightarrow> (fetch_partial \<Rightarrow> js_error + bool) \<Rightarrow> fetch_hook" where
  "addInterceptor h i = h\<lparr>interceptors := interceptors h @ [i]\<rparr>"

record 'ws ws_hook =
  connections :: "(nat, 'ws) js_map"
  ws_events :: "ws_event list"
  messageInterceptors :: "(ws_event \<Rightarrow> js_error + bool) list"
  connectionIdCounter :: nat

definition new_ws_hook :: "'ws ws_hook" where
  "new_ws_hook =
     \<lparr>connections = [], ws_events = [], messageInterceptors = [], connectionIdCounter = 0\<rparr>"

text \<open>\<open>this.events.push(event); if (this.events.length > 2000) this.events.shift();\<close>\<close>

definition ws_recordEvent :: "'ws ws_hook \<Rightarrow> ws_event \<Rightarrow> 'ws ws_hook" where
  "ws_recordEvent h e =
     (let h1 = h\<lparr>ws_events := ws_events h @ [e]\<rparr>
      in if length (ws_events h1) > 2000
         then h1\<lparr>ws_events := tl (ws_events h1)\<rparr>
         else h1)"

definition ws_getEvents :: "'ws ws_hook \<Rightarrow> ws_event list" where
  "ws_getEvents h = ws_events h"

definition getEventsByUrl :: "'ws ws_hook \<Rightarrow> string \<Rightarrow> ws_event list" where
  "getEventsByUrl h u = filter (\<lambda>e. ws_url e = u) (ws_events h)"

definition getActiveConnections :: "'ws ws_hook \<Rightarrow> nat" where
  "getActiveConnections h = map_size (connections h)"

subsection \<open>The fetch wrappers\<close>

record fetch_response =
  resp_status :: int
  resp_statusText :: string
  resp_headers :: "(string, string) js_map"
  resp_body :: string

datatype fetch_input = InputString string | InputURL string | InputRequest string

datatype request_body =
    BodyString string
  | BodyFormData "(string \<times> string) list"
  | BodyURLSearchParams "(string \<times> string) list"
  | BodyOther jsval

record request_init =
  init_method :: "string option"
  init_headers :: "(string \<times> string) list option"
  init_body :: "request_body option"

text \<open>
  \<open>typeof input === 'string' ? input : input instanceof URL ? input.toString() : input.url\<close>
\<close>

fun input_url :: "fetch_input \<Rightarrow> string" where
  "input_url (InputString s) = s"
| "input_url (InputURL u) = u"
| "input_url (InputRequest u) = u"

text \<open>\<open>init?.method || 'GET'\<close>\<close>

definition request_method :: "request_init option \<Rightarrow> string" where
  "request_method init =
     (case init of
        None \<Rightarrow> ''GET''
      | Some i \<Rightarrow> (case init_method i of
                    None \<Rightarrow> ''GET''
                  | Some m \<Rightarrow> if m = [] then ''GET'' else m))"

text \<open>
  The three shapes of \<open>init.headers\<close> (a \<open>Headers\<close> object, an array of pairs, a plain
  object) all end in one assignment \<open>requestHeaders[key] = value\<close> per entry.
\<close>

definition collect_headers :: "request_init option \<Rightarrow> (string, string) js_map" where
  "collect_headers init =
     (case init of
        None \<Rightarrow> []
      | Some i \<Rightarrow> (case init_headers i of
                    None \<Rightarrow> []
                  | Some hs \<Rightarrow> foldl (\<lambda>acc (k, v). map_set k v acc) [] hs))"

definition entries_object :: "(string \<times> string) list \<Rightarrow> jsval" where
  "entries_object kvs = JObj (foldl (\<lambda>acc (k, v). map_set k (JStr v) acc) [] kvs)"

text \<open>
  \<open>AdvancedFetchHook.parseRequestBody\<close>; \<open>json_parse\<close> stands for \<open>JSON.parse\<close>, whose
  \<open>SyntaxError\<close> is caught here.
\<close>

definition parseRequestBody ::
  "(string \<Rightarrow> js_error + jsval) \<Rightarrow> request_body option \<Rightarrow> jsval" where
  "parseRequestBody json_parse body =
     (case body of
        None \<Rightarrow> JNull
      | Some (BodyString s) \<Rightarrow>
          if s = [] then JNull
          else (case json_parse s of Inr v \<Rightarrow> v | Inl e \<Rightarrow> JStr s)
      | Some (BodyFormData kvs) \<Rightarrow> entries_object kvs
      | Some (BodyURLSearchParams kvs) \<Rightarrow> entries_object kvs
      | Some (BodyOther v) \<Rightarrow> if truthy v then v else JNull)"

text \<open>\<open>error instanceof Error ? error.message : 'Unknown error'\<close>\<close>

fun error_message :: "js_error \<Rightarrow> string" where
  "error_message (ErrorObj n m) = m"
| "error_message (Thrown v) = ''Unknown error''"

datatype fetch_post =
    FetchEventMsg http_event
  | FetchErrorMsg fetch_partial string

text \<open>The loop \<open>for (const interceptor of self.interceptors) if (await interceptor(event)) ...\<close>;
  it stands outside the \<open>try\<close>, so a rejecting interceptor rejects the wrapped call.\<close>

fun run_interceptors ::
  "(fetch_partial \<Rightarrow> js_error + bool) list \<Rightarrow> fetch_partial \<Rightarrow> js_error + bool" where
  "run_interceptors [] ev = Inr False"
| "run_interceptors (i # rest) ev =
     (case i ev of
        Inl e \<Rightarrow> Inl e
      | Inr b \<Rightarrow> if b then Inr True else run_interceptors rest ev)"

definition intercepted_response :: fetch_response where
  "intercepted_response =
     \<lparr>resp_status = 200, resp_statusText = [],
      resp_headers = [(''content-type'', ''application/json'')],
      resp_body = ''{\"intercepted\":true}''\<rparr>"

text \<open>\<open>response.headers.get('content-type') || ''\<close>; a \<open>Headers\<close> object keeps its names
  in lower case.\<close>

definition response_contentType :: "fetch_response \<Rightarrow> string" where
  "response_contentType r =
     (case map_get (resp_headers r) ''content-type'' of None \<Rightarrow> [] | Some c \<Rightarrow> c)"

text \<open>
  The three awaited readers of the cloned response.  \<open>clonedResponse.json()\<close> rejects with
  the \<open>SyntaxError\<close> of \<open>JSON.parse\<close> when the body is not JSON; \<open>text()\<close> and
  \<open>arrayBuffer()\<close> return the body as it is.
\<close>

definition read_responseBody ::
  "(string \<Rightarrow> js_error + jsval) \<Rightarrow> fetch_response \<Rightarrow> js_error + jsval" where
  "read_responseBody json_parse r =
     (let contentType = response_contentType r
      in if str_includes contentType ''application/json'' then json_parse (resp_body r)
         else if str_includes contentType ''text/'' then Inr (JStr (resp_body r))
         else Inr (JBuffer (resp_body r)))"

text \<open>
  \<open>AdvancedFetchHook.install\<close>: the function installed as \<open>window.fetch\<close>.  It returns
  what the caller's promise settles to, the hook after the call and the messages posted.
  \<open>now\<close> is the reading of \<open>Date.now()\<close>.
\<close>

definition advanced_fetch ::
  "(fetch_input \<Rightarrow> request_init option \<Rightarrow> js_error + fetch_response) \<Rightarrow>
   (string \<Rightarrow> js_error + jsval) \<Rightarrow> int \<Rightarrow> fetch_hook \<Rightarrow>
   fetch_input \<Rightarrow> request_init option \<Rightarrow>
   (js_error + fetch_response) \<times> fetch_hook \<times> fetch_post list" where
  "advanced_fetch OriginalFetch json_parse now h input init =
     (let event = \<lparr>p_url = input_url input, p_method = request_method init,
                    p_requestHeaders = collect_headers init,
                    p_requestBody =
                      parseRequestBody json_parse (case init of None \<Rightarrow> None | Some i \<Rightarrow> init_body i),
                    p_timestamp = now\<rparr>
      in case run_interceptors (interceptors h) event of
           Inl e \<Rightarrow> (Inl e, h, [])
         | Inr shouldIntercept \<Rightarrow>
             if shouldIntercept then (Inr intercepted_response, h, [])
             else (case OriginalFetch input init of
                     Inl error \<Rightarrow> (Inl error, h, [FetchErrorMsg event (error_message error)])
                   | Inr response \<Rightarrow>
                       (case read_responseBody json_parse response of
                          Inl error \<Rightarrow>
                            (Inl error, h, [FetchErrorMsg event (error_message error)])
                        | Inr body \<Rightarrow>
                            (let full = \<lparr>url = p_url event, http_method = p_method event,
                                          requestHeaders = p_requestHeaders event,
                                          requestBody = p_requestBody event,
                                          responseHeaders = resp_headers response,
                                          responseBody = body,
                                          status = resp_status response,
                                          timestamp = p_timestamp event\<rparr>
                             in (Inr response, fetch_recordEvent h full,
                                 [FetchEventMsg full])))))"

text \<open>
  The basic \<open>fetchHook\<close>.  Its read-out of the clone is a promise chain that is not awaited
  and ends in \<open>catch\<close>: it runs after the caller has the response, so only the message of
  the failure path is posted before the call settles.
\<close>

datatype basic_post = BasicErrorMsg string string string

definition basic_fetch ::
  "(fetch_input \<Rightarrow> request_init option \<Rightarrow> js_error + fetch_response) \<Rightarrow>
   fetch_input \<Rightarrow> request_init option \<Rightarrow> (js_error + fetch_response) \<times> basic_post list" where
  "basic_fetch OriginalFetch input init =
     (case OriginalFetch input init of
        Inr response \<Rightarrow> (Inr response, [])
      | Inl error \<Rightarrow>
          (Inl error,
           [BasicErrorMsg (input_url input) (request_method init) (error_message error)]))"

text \<open>
  A stand-in for \<open>JSON.parse\<close> in the examples: it knows the texts \<open>{}\<close> and \<open>null\<close>,
  and answers every other text, the empty text among them, as \<open>JSON.parse\<close> answers a
  text that is not JSON.
\<close>

definition sample_json_parse :: "string \<Rightarrow> js_error + jsval" where
  "sample_json_parse s =
     (if s = ''{}'' then Inr (JObj [])
      else if s = ''null'' then Inr JNull
      else Inl (ErrorObj ''SyntaxError'' ''Unexpected end of JSON input''))"

subsection \<open>The WebSocket wrapper\<close>

text \<open>
  \<open>self.connectionIdCounter++\<close> on a JavaScript number: every integer up to \<open>2^53\<close> is
  exact, and \<open>2^53 + 1\<close> rounds back to \<open>2^53\<close>, where a counter that started at 0 stays.
\<close>

definition two_53 :: nat where
  "two_53 = 9007199254740992"

definition js_increment :: "nat \<Rightarrow> nat" where
  "js_increment n = (if n < two_53 then n + 1 else n)"

datatype ws_data = TextData string | BinaryData string

text \<open>\<open>typeof data === 'string' ? data : new TextDecoder().decode(data)\<close>\<close>

fun raw_of :: "ws_data \<Rightarrow> string" where
  "raw_of (TextData s) = s"
| "raw_of (BinaryData b) = b"

text \<open>\<open>let message = raw; try { message = JSON.parse(raw) } catch (e) { }\<close>\<close>

definition parse_or_raw :: "(string \<Rightarrow> js_error + jsval) \<Rightarrow> string \<Rightarrow> jsval" where
  "parse_or_raw json_parse raw = (case json_parse raw of Inr v \<Rightarrow> v | Inl e \<Rightarrow> JStr raw)"

text \<open>
  The constructor \<open>WebSocketHook(url, protocols)\<close>.  It returns the connection id its
  closures capture together with the socket, or the error of the original constructor.
\<close>

definition WebSocketHook ::
  "(string \<Rightarrow> js_error + 'ws) \<Rightarrow> 'ws ws_hook \<Rightarrow> string \<Rightarrow> (js_error + nat \<times> 'ws) \<times> 'ws ws_hook" where
  "WebSocketHook OriginalWebSocket h wsUrl =
     (case OriginalWebSocket wsUrl of
        Inl e \<Rightarrow> (Inl e, h)
      | Inr ws \<Rightarrow>
          (let connectionId = connectionIdCounter h;
               h1 = h\<lparr>connectionIdCounter := js_increment (connectionIdCounter h)\<rparr>;
               h2 = h1\<lparr>connections := map_set connectionId ws (connections h1)\<rparr>
           in (Inr (connectionId, ws), h2)))"

text \<open>
  \<open>ws.send\<close> as replaced.  The interceptors are started by \<open>forEach(async ...)\<close> and are
  not awaited, so \<open>shouldBlock\<close> is still \<open>false\<close> when it is tested: the event is
  recorded and the original \<open>send\<close> is called.
\<close>

definition ws_send ::
  "(string \<Rightarrow> js_error + jsval) \<Rightarrow> ('ws \<Rightarrow> ws_data \<Rightarrow> js_error + unit) \<Rightarrow> int \<Rightarrow>
   string \<Rightarrow> 'ws \<Rightarrow> 'ws ws_hook \<Rightarrow> ws_data \<Rightarrow> (js_error + unit) \<times> 'ws ws_hook \<times> ws_event list" where
  "ws_send json_parse originalSend now wsUrl ws h d =
     (let raw = raw_of d;
          event = \<lparr>ws_url = wsUrl, ws_type = WsSend,
                   ws_message = Some (parse_or_raw json_parse raw), ws_raw = Some raw,
                   ws_code = None, ws_reason = None, ws_timestamp = now\<rparr>
      in (originalSend ws d, ws_recordEvent h event, [event]))"

definition ws_on_message ::
  "(string \<Rightarrow> js_error + jsval) \<Rightarrow> int \<Rightarrow> string \<Rightarrow> 'ws ws_hook \<Rightarrow> ws_data \<Rightarrow>
   'ws ws_hook \<times> ws_event list" where
  "ws_on_message json_parse now wsUrl h d =
     (let raw = raw_of d;
          wsEvent = \<lparr>ws_url = wsUrl, ws_type = WsMessage,
                     ws_message = Some (parse_or_raw json_parse raw), ws_raw = Some raw,
                     ws_code = None, ws_reason = None, ws_timestamp = now\<rparr>
      in (ws_recordEvent h wsEvent, [wsEvent]))"

definition ws_on_open :: "int \<Rightarrow> string \<Rightarrow> 'ws ws_hook \<Rightarrow> 'ws ws_hook \<times> ws_event list" where
  "ws_on_open now wsUrl h =
     (let event = \<lparr>ws_url = wsUrl, ws_type = WsOpen, ws_message = None, ws_raw = None,
                   ws_code = None, ws_reason = None, ws_timestamp = now\<rparr>
      in (ws_recordEvent h event, [event]))"

definition ws_on_close ::
  "int \<Rightarrow> string \<Rightarrow> nat \<Rightarrow> 'ws ws_hook \<Rightarrow> int \<Rightarrow> string \<Rightarrow> 'ws ws_hook \<times> ws_event list" where
  "ws_on_close now wsUrl connectionId h code reason =
     (let event = \<lparr>ws_url = wsUrl, ws_type = WsClose, ws_message = None, ws_raw = None,
                   ws_code = Some code, ws_reason = Some reason, ws_timestamp = now\<rparr>;
          h1 = ws_recordEvent h event
      in (h1\<lparr>connections := map_delete connectionId (connections h1)\<rparr>, [event]))"

definition ws_on_error :: "int \<Rightarrow> string \<Rightarrow> 'ws ws_hook \<Rightarrow> 'ws ws_hook \<times> ws_event list" where
  "ws_on_error now wsUrl h =
     (let event = \<lparr>ws_url = wsUrl, ws_type = WsError, ws_message = None, ws_raw = None,
                   ws_code = None, ws_reason = None, ws_timestamp = now\<rparr>
      in (ws_recordEvent h event, [event]))"

text \<open>
  What a page does with the hooked constructor and the sockets it made.  A notification
  names the closure it runs by what that closure captured: the url, the connection id,
  the socket.
\<close>

datatype 'ws ws_action =
    Construct string
  | Opened string
  | Received string ws_data
  | Sent 'ws string ws_data
  | Closed nat string int string
  | Errored string

text \<open>One action at clock reading \<open>now\<close>; with the hook it returns the id of the
  connection it created, if any.\<close>

definition ws_step ::
  "(string \<Rightarrow> js_error + 'ws) \<Rightarrow> (string \<Rightarrow> js_error + jsval) \<Rightarrow>
   ('ws \<Rightarrow> ws_data \<Rightarrow> js_error + unit) \<Rightarrow> 'ws ws_hook \<Rightarrow> int \<times> 'ws ws_action \<Rightarrow>
   'ws ws_hook \<times> nat list" where
  "ws_step OriginalWebSocket json_parse originalSend h step =
     (let now = fst step
      in case snd step of
           Construct u \<Rightarrow>
             (case WebSocketHook OriginalWebSocket h u of
                (Inl e, h') \<Rightarrow> (h', [])
              | (Inr (connectionId, ws), h') \<Rightarrow> (h', [connectionId]))
         | Opened u \<Rightarrow> (fst (ws_on_open now u h), [])
         | Received u d \<Rightarrow> (fst (ws_on_message json_parse now u h d), [])
         | Sent ws u d \<Rightarrow> (fst (snd (ws_send json_parse originalSend now u ws h d)), [])
         | Closed c u code reason \<Rightarrow> (fst (ws_on_close now u c h code reason), [])
         | Errored u \<Rightarrow> (fst (ws_on_error now u h), []))"

fun ws_run ::
  "(string \<Rightarrow> js_error + 'ws) \<Rightarrow> (string \<Rightarrow> js_error + jsval) \<Rightarrow>
   ('ws \<Rightarrow> ws_data \<Rightarrow> js_error + unit) \<Rightarrow> 'ws ws_hook \<Rightarrow> (int \<times> 'ws ws_action) list \<Rightarrow>
   'ws ws_hook \<times> nat list" where
  "ws_run ows jp os h [] = (h, [])"
| "ws_run ows jp os h (a # as) =
     (let r1 = ws_step ows jp os h a;
          r2 = ws_run ows jp os (fst r1) as
      in (fst r2, snd r1 @ snd r2))"

text \<open>The number of constructor calls among some actions.\<close>

fun is_construct :: "'ws ws_action \<Rightarrow> bool" where
  "is_construct (Construct u) = True"
| "is_construct a = False"

definition constructs :: "(int \<times> 'ws ws_action) list \<Rightarrow> nat" where
  "constructs acts = length (filter (\<lambda>step. is_construct (snd step)) acts)"

text \<open>A stand-in for the original constructor in the examples: the socket is its url,
  and an empty url is refused.\<close>

definition sample_WebSocket :: "string \<Rightarrow> js_error + string" where
  "sample_WebSocket u =
     (if u = [] then Inl (ErrorObj ''SyntaxError'' ''The URL is invalid'') else Inr u)"

definition one_connection :: "string ws_hook" where
  "one_connection = snd (WebSocketHook sample_WebSocket new_ws_hook ''wss://a.example/live'')"

text \<open>A page that makes three sockets, fails to make a fourth, and closes the first.\<close>

definition sample_session :: "(int \<times> string ws_action) list" where
  "sample_session =
     [(1700000000000, Construct ''wss://a.example/live''),
      (1700000000010, Opened ''wss://a.example/live''),
      (1700000000020, Construct []),
      (1700000000030, Construct ''wss://b.example/feed''),
      (1700000000040, Received ''wss://a.example/live'' (TextData ''{}'')),
      (1700000000050, Closed 0 ''wss://a.example/live'' 1000 ''done''),
      (1700000000060, Construct ''wss://c.example/chat'')]"

subsection \<open>EventFilter.filter\<close>

text \<open>
  The events are any type \<open>T\<close> with the optional fields below; further fields live in the
  record's extension.  An optional field that is absent or \<open>undefined\<close> is \<open>None\<close>.
\<close>

record hook_event =
  ev_source :: "string option"
  ev_url :: "string option"
  ev_method :: "string option"
  ev_status :: "int option"
  ev_timestamp :: "int option"
  ev_data :: jsval

datatype status_spec = StatusExact int | StatusRange "int option" "int option"

record time_range =
  range_start :: int
  range_end :: int

record filter_options =
  sources :: "string list option"
  urlPattern :: "string option"
  opt_method :: "string option"
  statusCode :: "status_spec option"
  timeRange :: "time_range option"
  keyword :: "string option"
  contentType :: "string option"

text \<open>Truthiness of an optional string and of an optional number.\<close>

definition str_truthy :: "string option \<Rightarrow> bool" where
  "str_truthy s = (case s of None \<Rightarrow> False | Some t \<Rightarrow> t \<noteq> [])"

definition num_truthy :: "int option \<Rightarrow> bool" where
  "num_truthy n = (case n of None \<Rightarrow> False | Some k \<Rightarrow> k \<noteq> 0)"

text \<open>\<open>v || w\<close>, and \<open>v[k]\<close> for a \<open>v\<close> that is neither \<open>null\<close> nor \<open>undefined\<close> and a key
  that no string, number, array or buffer has.\<close>

definition js_or :: "jsval \<Rightarrow> jsval \<Rightarrow> jsval" where
  "js_or a b = (if truthy a then a else b)"

fun get_prop :: "jsval \<Rightarrow> string \<Rightarrow> jsval" where
  "get_prop (JObj fs) k = (case map_get fs k of None \<Rightarrow> JUndefined | Some v \<Rightarrow> v)"
| "get_prop v k = JUndefined"

text \<open>Each block of the callback says whether it executes \<open>return false\<close>.\<close>

definition sources_rejects :: "filter_options \<Rightarrow> 'a hook_event_scheme \<Rightarrow> bool" where
  "sources_rejects options event =
     (case sources options of
        None \<Rightarrow> False
      | Some srcs \<Rightarrow> str_truthy (ev_source event) \<and> the (ev_source event) \<notin> set srcs)"

text \<open>\<open>regex_test p u\<close> stands for \<open>new RegExp(p, 'i').test(u)\<close>, which throws a
  \<open>SyntaxError\<close> on a pattern that is not a regular expression.\<close>

definition url_rejects ::
  "(string \<Rightarrow> string \<Rightarrow> js_error + bool) \<Rightarrow> filter_options \<Rightarrow> 'a hook_event_scheme \<Rightarrow>
   js_error + bool" where
  "url_rejects regex_test options event =
     (if str_truthy (urlPattern options) \<and> str_truthy (ev_url event)
      then (case regex_test (the (urlPattern options)) (the (ev_url event)) of
              Inl e \<Rightarrow> Inl e
            | Inr matches \<Rightarrow> Inr (\<not> matches))
      else Inr False)"

definition method_rejects :: "filter_options \<Rightarrow> 'a hook_event_scheme \<Rightarrow> bool" where
  "method_rejects options event =
     (str_truthy (opt_method options) \<and> str_truthy (ev_method event) \<and>
      toUpperCase (the (ev_method event)) \<noteq> toUpperCase (the (opt_method options)))"

definition status_rejects :: "filter_options \<Rightarrow> 'a hook_event_scheme \<Rightarrow> bool" where
  "status_rejects options event =
     (case statusCode options of
        None \<Rightarrow> False
      | Some (StatusExact n) \<Rightarrow>
          n \<noteq> 0 \<and> (case ev_status event of None \<Rightarrow> False | Some s \<Rightarrow> s \<noteq> n)
      | Some (StatusRange lo hi) \<Rightarrow>
          (case ev_status event of
             None \<Rightarrow> False
           | Some s \<Rightarrow>
               (case lo of None \<Rightarrow> False | Some m \<Rightarrow> s < m) \<or>
               (case hi of None \<Rightarrow> False | Some m \<Rightarrow> s > m)))"

definition time_rejects :: "filter_options \<Rightarrow> 'a hook_event_scheme \<Rightarrow> bool" where
  "time_rejects options event =
     (case timeRange options of
        None \<Rightarrow> False
      | Some r \<Rightarrow>
          num_truthy (ev_timestamp event) \<and>
          ((range_start r \<noteq> 0 \<and> the (ev_timestamp event) < range_start r) \<or>
           (range_end r \<noteq> 0 \<and> the (ev_timestamp event) > range_end r)))"

text \<open>\<open>JSON.stringify(event.data || event).toLowerCase()\<close>; \<open>stringify_data\<close> and
  \<open>stringify_event\<close> stand for \<open>JSON.stringify\<close> on the two kinds of argument.\<close>

definition searchText ::
  "(jsval \<Rightarrow> string) \<Rightarrow> ('a hook_event_scheme \<Rightarrow> string) \<Rightarrow> 'a hook_event_scheme \<Rightarrow> string" where
  "searchText stringify_data stringify_event event =
     toLowerCase (if truthy (ev_data event) then stringify_data (ev_data event)
                  else stringify_event event)"

definition keyword_rejects ::
  "(jsval \<Rightarrow> string) \<Rightarrow> ('a hook_event_scheme \<Rightarrow> string) \<Rightarrow> filter_options \<Rightarrow>
   'a hook_event_scheme \<Rightarrow> bool" where
  "keyword_rejects stringify_data stringify_event options event =
     (str_truthy (keyword options) \<and>
      \<not> str_includes (searchText stringify_data stringify_event event)
           (toLowerCase (the (keyword options))))"

text \<open>The content type looked up can be any value: a string has \<open>String.includes\<close>, an
  array has \<open>Array.includes\<close>, and on anything else the call is a \<open>TypeError\<close>.\<close>

definition contentType_rejects :: "filter_options \<Rightarrow> 'a hook_event_scheme \<Rightarrow> js_error + bool" where
  "contentType_rejects options event =
     (if str_truthy (contentType options) \<and> truthy (ev_data event)
      then (let headers = js_or (get_prop (ev_data event) ''headers'')
                            (js_or (get_prop (ev_data event) ''responseHeaders'') (JObj []));
                ct = js_or (get_prop headers ''content-type'')
                       (js_or (get_prop headers ''Content-Type'') (JStr []))
            in case ct of
                 JStr c \<Rightarrow> Inr (\<not> str_includes c (the (contentType options)))
               | JArr xs \<Rightarrow> Inr (JStr (the (contentType options)) \<notin> set xs)
               | _ \<Rightarrow> Inl (ErrorObj ''TypeError'' ''contentType.includes is not a function''))
      else Inr False)"

text \<open>The callback of \<open>events.filter\<close>: the blocks in the order of the source.\<close>

definition event_passes ::
  "(string \<Rightarrow> string \<Rightarrow> js_error + bool) \<Rightarrow> (jsval \<Rightarrow> string) \<Rightarrow>
   ('a hook_event_scheme \<Rightarrow> string) \<Rightarrow> filter_options \<Rightarrow> 'a hook_event_scheme \<Rightarrow>
   js_error + bool" where
  "event_passes regex_test stringify_data stringify_event options event =
     (if sources_rejects options event then Inr False
      else (case url_rejects regex_test options event of
              Inl e \<Rightarrow> Inl e
            | Inr url_no \<Rightarrow>
                if url_no then Inr False
                else if method_rejects options event then Inr False
                else if status_rejects options event then Inr False
                else if time_rejects options event then Inr False
                else if keyword_rejects stringify_data stringify_event options event
                  then Inr False
                else (case contentType_rejects options event of
                        Inl e \<Rightarrow> Inl e
                      | Inr ct_no \<Rightarrow> Inr (\<not> ct_no))))"

text \<open>\<open>Array.prototype.filter\<close> with a callback that can throw.\<close>

fun array_filter :: "('a \<Rightarrow> js_error + bool) \<Rightarrow> 'a list \<Rightarrow> js_error + 'a list" where
  "array_filter cb [] = Inr []"
| "array_filter cb (x # xs) =
     (case cb x of
        Inl e \<Rightarrow> Inl e
      | Inr keep \<Rightarrow>
          (case array_filter cb xs of
             Inl e \<Rightarrow> Inl e
           | Inr rest \<Rightarrow> Inr (if keep then x # rest else rest)))"

definition EventFilter_filter ::
  "(string \<Rightarrow> string \<Rightarrow> js_error + bool) \<Rightarrow> (jsval \<Rightarrow> string) \<Rightarrow>
   ('a hook_event_scheme \<Rightarrow> string) \<Rightarrow> 'a hook_event_scheme list \<Rightarrow> filter_options \<Rightarrow>
   js_error + 'a hook_event_scheme list" where
  "EventFilter_filter regex_test stringify_data stringify_event events options =
     array_filter (event_passes regex_test stringify_data stringify_event options) events"

text \<open>Three events for the examples: one without a method, a GET and a POST; and
  stand-ins for \<open>RegExp.test\<close> and \<open>JSON.stringify\<close>.\<close>

definition event_without_method :: hook_event where
  "event_without_method =
     \<lparr>ev_source = Some ''websocket'', ev_url = Some ''wss://a.example/live'', ev_method = None,
      ev_status = None, ev_timestamp = None, ev_data = JUndefined\<rparr>"

definition event_get :: hook_event where
  "event_get =
     \<lparr>ev_source = Some ''xhr'', ev_url = Some ''https://a.example/items'', ev_method = Some ''GET'',
      ev_status = Some 200, ev_timestamp = Some 1700000000000, ev_data = JUndefined\<rparr>"

definition event_post :: hook_event where
  "event_post =
     \<lparr>ev_source = Some ''fetch'', ev_url = Some ''https://a.example/items'', ev_method = Some ''post'',
      ev_status = Some 201, ev_timestamp = Some 1700000000500, ev_data = JStr ''created''\<rparr>"

definition sample_regex_test :: "string \<Rightarrow> string \<Rightarrow> js_error + bool" where
  "sample_regex_test pattern u = Inr (str_includes (toLowerCase u) (toLowerCase pattern))"

definition sample_stringify_data :: "jsval \<Rightarrow> string" where
  "sample_stringify_data v = (case v of JStr t \<Rightarrow> CHR 0x22 # t @ [CHR 0x22] | _ \<Rightarrow> ''{}'')"

definition sample_stringify_event :: "hook_event \<Rightarrow> string" where
  "sample_stringify_event e =
     ''{\"url\":\"'' @ (case ev_url e of None \<Rightarrow> [] | Some u \<Rightarrow> u) @ ''\"}''"

subsection \<open>ProtobufParser and UniversalProtobufParser\<close>

text \<open>
  The protobufjs calls the parser makes, as parameters: \<open>protobuf.parse(text).root\<close>,
  \<open>root.lookupType(name)\<close>, \<open>Type.decode(buffer)\<close> and \<open>Type.toObject(message, ...)\<close>.
  Each can throw.  \<open>decodeMessage\<close> is declared for an \<open>ArrayBuffer\<close> or a \<open>Uint8Array\<close>
  and hands \<open>Type.decode\<close> what it was given.
\<close>

record ('root, 'ty, 'msg) protobufjs =
  pb_parse :: "string \<Rightarrow> js_error + 'root"
  pb_lookupType :: "'root \<Rightarrow> string \<Rightarrow> js_error + 'ty"
  pb_decode :: "'ty \<Rightarrow> js_buffer \<Rightarrow> js_error + 'msg"
  pb_toObject :: "'ty \<Rightarrow> 'msg \<Rightarrow> js_error + jsval"

text \<open>\<open>ProtobufParser.loadProto\<close> and \<open>ProtobufParser.decodeMessage\<close>; the parser object is
  its \<open>root\<close>.  \<open>lookupType\<close> returns a type or throws, so the \<open>throw\<close> under
  \<open>if (!MessageType)\<close> is the left branch of the first \<open>case\<close>.\<close>

definition loadProto ::
  "('root, 'ty, 'msg) protobufjs \<Rightarrow> string \<Rightarrow> js_error + 'root" where
  "loadProto pb protoContent = pb_parse pb protoContent"

definition decodeMessage ::
  "('root, 'ty, 'msg) protobufjs \<Rightarrow> 'root \<Rightarrow> string \<Rightarrow> js_buffer \<Rightarrow> js_error + jsval" where
  "decodeMessage pb root messageType buffer =
     (case pb_lookupType pb root messageType of
        Inl e \<Rightarrow> Inl e
      | Inr MessageType \<Rightarrow>
          (case pb_decode pb MessageType buffer of
             Inl e \<Rightarrow> Inl e
           | Inr message \<Rightarrow> pb_toObject pb MessageType message))"

record proto_definition =
  pd_name :: string
  pd_content :: string
  messageTypes :: "string list"

record 'root universal_parser =
  parsers :: "(string, 'root) js_map"
  protoDefinitions :: "(string, proto_definition) js_map"

definition new_universal_parser :: "'root universal_parser" where
  "new_universal_parser = \<lparr>parsers = [], protoDefinitions = []\<rparr>"

record decode_result =
  success :: bool
  data :: "jsval option"
  messageType :: "string option"
  protoName :: "string option"

text \<open>\<open>protoContent.split('\n')\<close>\<close>

fun split_on :: "char \<Rightarrow> string \<Rightarrow> string list" where
  "split_on sep [] = [[]]"
| "split_on sep (c # cs) =
     (if c = sep then [] # split_on sep cs
      else (case split_on sep cs of
              [] \<Rightarrow> [[c]]
            | l # ls \<Rightarrow> (c # l) # ls))"

text \<open>The classes \<open>\s\<close>, \<open>\w\<close> and \<open>[\w.]\<close> on ASCII.\<close>

definition is_space :: "char \<Rightarrow> bool" where
  "is_space c = (let n = of_char c :: nat in n = 32 \<or> (9 \<le> n \<and> n \<le> 13))"

definition is_word :: "char \<Rightarrow> bool" where
  "is_word c =
     (let n = of_char c :: nat
      in (48 \<le> n \<and> n \<le> 57) \<or> (65 \<le> n \<and> n \<le> 90) \<or> n = 95 \<or> (97 \<le> n \<and> n \<le> 122))"

definition is_package_char :: "char \<Rightarrow> bool" where
  "is_package_char c = (is_word c \<or> c = CHR ''.'')"

text \<open>
  A pattern \<open>kw\s+(C+)\<close> tried at the start of \<open>s\<close>: the keyword, then all the white
  space there is (at least one character), then the longest run of class \<open>C\<close> (at least
  one character), which is the captured group.  Giving white space back cannot help,
  since no white-space character is in \<open>C\<close>.
\<close>

definition match_here :: "string \<Rightarrow> (char \<Rightarrow> bool) \<Rightarrow> string \<Rightarrow> string option" where
  "match_here kw cls s =
     (if startsWith s kw
      then (let rest = drop (length kw) s;
                spaces = takeWhile is_space rest;
                group = takeWhile cls (dropWhile is_space rest)
            in if spaces \<noteq> [] \<and> group \<noteq> [] then Some group else None)
      else None)"

text \<open>\<open>line.match(/kw\s+(C+)/)\<close>: the leftmost position where the pattern matches.\<close>

fun regex_match :: "string \<Rightarrow> (char \<Rightarrow> bool) \<Rightarrow> string \<Rightarrow> string option" where
  "regex_match kw cls [] = match_here kw cls []"
| "regex_match kw cls (c # cs) =
     (case match_here kw cls (c # cs) of
        Some g \<Rightarrow> Some g
      | None \<Rightarrow> regex_match kw cls cs)"

definition packageMatch :: "string \<Rightarrow> string option" where
  "packageMatch line = regex_match ''package'' is_package_char line"

definition messageMatch :: "string \<Rightarrow> string option" where
  "messageMatch line = regex_match ''message'' is_word line"

text \<open>The body of the loop over the lines, on the pair \<open>(currentPackage, messageTypes)\<close>.\<close>

definition extract_line :: "string \<times> string list \<Rightarrow> string \<Rightarrow> string \<times> string list" where
  "extract_line st line =
     (let currentPackage = (case packageMatch line of
                              Some p \<Rightarrow> p
                            | None \<Rightarrow> fst st)
      in case messageMatch line of
           Some messageName \<Rightarrow>
             (currentPackage,
              snd st @ [if currentPackage \<noteq> [] then currentPackage @ ''.'' @ messageName
                        else messageName])
         | None \<Rightarrow> (currentPackage, snd st))"

definition extractMessageTypes :: "string \<Rightarrow> string list" where
  "extractMessageTypes protoContent =
     snd (foldl extract_line ([], []) (split_on (CHR 0x0A) protoContent))"

definition registerProto ::
  "('root, 'ty, 'msg) protobufjs \<Rightarrow> 'root universal_parser \<Rightarrow> string \<Rightarrow> string \<Rightarrow>
   (js_error + unit) \<times> 'root universal_parser" where
  "registerProto pb up name protoContent =
     (case loadProto pb protoContent of
        Inl e \<Rightarrow> (Inl e, up)
      | Inr parser \<Rightarrow>
          (Inr (),
           up\<lparr>parsers := map_set name parser (parsers up),
              protoDefinitions :=
                map_set name
                  \<lparr>pd_name = name, pd_content = protoContent,
                   messageTypes = extractMessageTypes protoContent\<rparr>
                  (protoDefinitions up)\<rparr>))"

text \<open>The candidates of \<open>tryParse\<close>: \<open>domain ? entries.filter(...) : entries\<close>.\<close>

definition candidates ::
  "'root universal_parser \<Rightarrow> string option \<Rightarrow> (string \<times> proto_definition) list" where
  "candidates up domain =
     (if str_truthy domain
      then filter (\<lambda>entry. str_includes (toLowerCase (fst entry)) (toLowerCase (the domain)))
             (protoDefinitions up)
      else protoDefinitions up)"

definition decode_failed :: decode_result where
  "decode_failed = \<lparr>success = False, data = None, messageType = None, protoName = None\<rparr>"

text \<open>The inner loop over \<open>definition.messageTypes\<close>: the first type whose
  \<open>decodeMessage\<close> does not throw returns; every error is caught and dropped.\<close>

fun try_messageTypes ::
  "('root, 'ty, 'msg) protobufjs \<Rightarrow> 'root \<Rightarrow> string \<Rightarrow> js_buffer \<Rightarrow> string list \<Rightarrow>
   decode_result option" where
  "try_messageTypes pb parser pname buffer [] = None"
| "try_messageTypes pb parser pname buffer (mt # mts) =
     (case decodeMessage pb parser mt buffer of
        Inr d \<Rightarrow> Some \<lparr>success = True, data = Some d, messageType = Some mt,
                       protoName = Some pname\<rparr>
      | Inl e \<Rightarrow> try_messageTypes pb parser pname buffer mts)"

text \<open>The outer loop over the candidates; \<open>if (!parser) continue\<close>.\<close>

fun try_candidates ::
  "('root, 'ty, 'msg) protobufjs \<Rightarrow> (string, 'root) js_map \<Rightarrow> js_buffer \<Rightarrow>
   (string \<times> proto_definition) list \<Rightarrow> decode_result" where
  "try_candidates pb ps buffer [] = decode_failed"
| "try_candidates pb ps buffer (entry # rest) =
     (case map_get ps (fst entry) of
        None \<Rightarrow> try_candidates pb ps buffer rest
      | Some parser \<Rightarrow>
          (case try_messageTypes pb parser (fst entry) buffer (messageTypes (snd entry)) of
             Some r \<Rightarrow> r
           | None \<Rightarrow> try_candidates pb ps buffer rest))"

text \<open>\<open>tryParse(buffer: ArrayBuffer, domain?: string)\<close>: \<open>buffer\<close> is the content of the
  \<open>ArrayBuffer\<close> it is called with, and that object is what the loops pass on.\<close>

definition tryParse ::
  "('root, 'ty, 'msg) protobufjs \<Rightarrow> 'root universal_parser \<Rightarrow> bytes \<Rightarrow> string option \<Rightarrow>
   decode_result" where
  "tryParse pb up buffer domain =
     try_candidates pb (parsers up) (ArrayBuffer buffer) (candidates up domain)"

text \<open>The pairs (schema key, message type) the two loops visit, in the order they do.\<close>

definition attempts :: "(string \<times> proto_definition) list \<Rightarrow> (string \<times> string) list" where
  "attempts cs = concat (map (\<lambda>entry. map (\<lambda>mt. (fst entry, mt)) (messageTypes (snd entry))) cs)"

text \<open>
  What the reader of protobufjs does with the argument of \<open>Type.decode\<close>: it reads a
  \<open>Uint8Array\<close> (or a plain array) and throws \<open>Error("illegal buffer")\<close> on any other
  object, an \<open>ArrayBuffer\<close> among them.  The library is not part of the repository, so
  this is a property a library value may have, not a definition of the model.
\<close>

definition refuses_ArrayBuffer :: "('root, 'ty, 'msg) protobufjs \<Rightarrow> bool" where
  "refuses_ArrayBuffer pb = (\<forall>ty bs. \<exists>e. pb_decode pb ty (ArrayBuffer bs) = Inl e)"

text \<open>
  A small stand-in for the library, for the examples below.  \<open>parse\<close> accepts a text
  that declares the \<open>proto3\<close> syntax, and its root is the list of the types the text
  declares; \<open>lookupType\<close> throws on a name that is not among them; \<open>decode\<close> throws
  \<open>illegal buffer\<close> on an \<open>ArrayBuffer\<close>, and of a \<open>Uint8Array\<close> it accepts the byte strings
  made of one-byte varint fields (a tag byte of wire type 0, then a value byte below 128).
\<close>

fun varint_fields :: "bytes \<Rightarrow> bool" where
  "varint_fields [] = True"
| "varint_fields [t] = False"
| "varint_fields (t # v # rest) = (t mod 8 = 0 \<and> v < 128 \<and> varint_fields rest)"

definition sample_protobufjs :: "(string list, string, bytes) protobufjs" where
  "sample_protobufjs =
     \<lparr>pb_parse = (\<lambda>text. if str_includes text ''proto3'' then Inr (extractMessageTypes text)
                           else Inl (ErrorObj ''Error'' ''illegal token'')),
      pb_lookupType = (\<lambda>root name. if name \<in> set root then Inr name
                                     else Inl (ErrorObj ''Error'' ''no such type'')),
      pb_decode = (\<lambda>ty buffer.
                     case buffer of
                       ArrayBuffer bs \<Rightarrow> Inl (ErrorObj ''Error'' ''illegal buffer'')
                     | Uint8Array bs \<Rightarrow>
                         if varint_fields bs then Inr bs
                         else Inl (ErrorObj ''RangeError'' ''index out of range'')),
      pb_toObject = (\<lambda>ty message. Inr (JArr (map (\<lambda>b. JNum (uint b)) message)))\<rparr>"

text \<open>Two proto3 schemas registered one after the other, for the examples.\<close>

definition demo_registry :: "string list universal_parser" where
  "demo_registry =
     snd (registerProto sample_protobufjs
            (snd (registerProto sample_protobufjs new_universal_parser ''bilibili''
                    ''syntax = \"proto3\";
package bilibili.app;
message DynamicItem { int64 dynamic_id = 1; }''))
            ''demo''
            ''syntax=\"proto3\"; package p; message M { int32 a = 1; }'')"

subsection \<open>Registration and decoding in the words of the specification\<close>

text \<open>
  The most recently seen package declaration among some lines, if there is one, and a
  message name qualified by it: \<open>package.Name\<close>, or the bare \<open>Name\<close> when no package has
  been declared.
\<close>

definition current_package :: "string list \<Rightarrow> string option" where
  "current_package ls = (case rev (List.map_filter packageMatch ls) of [] \<Rightarrow> None | p # ps \<Rightarrow> Some p)"

fun qualify :: "string option \<Rightarrow> string \<Rightarrow> string" where
  "qualify None name = name"
| "qualify (Some pkg) name = pkg @ ''.'' @ name"

text \<open>
  One entry per line that matches \<open>message <Name>\<close>, in line order, qualified by the
  package seen last up to and including that line.
\<close>

definition declared_types :: "string list \<Rightarrow> string list" where
  "declared_types ls =
     concat (map (\<lambda>i. case messageMatch (ls ! i) of
                         None \<Rightarrow> []
                       | Some name \<Rightarrow> [qualify (current_package (take (Suc i) ls)) name])
                 [0..<length ls])"



text \<open>The structural decode of the bytes, as \<open>tryParse\<close> holds them, against one message
  type of one schema.\<close>

definition structural_decode ::
  "('root, 'ty, 'msg) protobufjs \<Rightarrow> 'root universal_parser \<Rightarrow> bytes \<Rightarrow> string \<times> string \<Rightarrow>
   jsval option" where
  "structural_decode pb up buffer attempt =
     (case map_get (parsers up) (fst attempt) of
        None \<Rightarrow> None
      | Some root \<Rightarrow>
          (case decodeMessage pb root (snd attempt) (ArrayBuffer buffer) of
             Inl e \<Rightarrow> None
           | Inr d \<Rightarrow> Some d))"



subsection \<open>HookStorage.storeEvents\<close>

record hook_data =
  d_timestamp :: "int option"
  d_url :: "string option"
  d_rest :: jsval

record hook_message =
  hm_source :: string
  hm_type :: string
  hm_data :: hook_data

record stored_hook_event =
  se_id :: string
  se_source :: string
  se_type :: string
  se_data :: hook_data
  se_timestamp :: int
  se_url :: "string option"

text \<open>
  What the environment answers while one event is mapped: \<open>Date.now()\<close> for the id,
  \<open>Math.random().toString(36)\<close>, and \<open>Date.now()\<close> for a missing timestamp.
\<close>

record clock_sample =
  now_id :: int
  random_base36 :: string
  now_timestamp :: int

text \<open>The decimal digits of a number that is not negative, as a template literal prints
  them.\<close>

function dec_string :: "int \<Rightarrow> string" where
  "dec_string n =
     (if n < 10 then [char_of (48 + n)]
      else dec_string (n div 10) @ [char_of (48 + n mod 10)])"
  by pat_completeness auto
termination
  by (relation "measure nat") auto

declare dec_string.simps [simp del]

definition getSource :: "string \<Rightarrow> string" where
  "getSource src =
     (if str_includes src ''xhr'' then ''xhr''
      else if str_includes src ''fetch'' then ''fetch''
      else if str_includes src ''websocket'' then ''websocket''
      else ''xhr'')"

text \<open>The callback of \<open>events.map\<close>; \<open>substr(2, 9)\<close> drops \<open>0.\<close> and keeps nine characters.\<close>

definition toStored :: "clock_sample \<Rightarrow> hook_message \<Rightarrow> stored_hook_event" where
  "toStored env event =
     \<lparr>se_id = dec_string (now_id env) @ ''-'' @ take 9 (drop 2 (random_base36 env)),
      se_source = getSource (hm_source event),
      se_type = hm_type event,
      se_data = hm_data event,
      se_timestamp = (if num_truthy (d_timestamp (hm_data event))
                      then the (d_timestamp (hm_data event)) else now_timestamp env),
      se_url = d_url (hm_data event)\<rparr>"

text \<open>
  \<open>storeEvents\<close> on the list kept under \<open>hook_events\<close>: the new events go in front, the
  whole is sorted by descending timestamp (the sort is stable) and cut to \<open>maxEvents\<close>.
  \<open>env i\<close> is the environment while the \<open>i\<close>-th event is mapped.
\<close>

definition storeEvents ::
  "(nat \<Rightarrow> clock_sample) \<Rightarrow> stored_hook_event list \<Rightarrow> hook_message list \<Rightarrow>
   stored_hook_event list" where
  "storeEvents env existingEvents events =
     (let storedEvents = map (\<lambda>(i, event). toStored (env i) event) (enumerate 0 events)
      in take 10000 (sort_key (\<lambda>e. - se_timestamp e) (storedEvents @ existingEvents)))"

text \<open>The order \<open><\<close> of JavaScript on strings: by code unit, a proper prefix first.\<close>

fun js_string_less :: "string \<Rightarrow> string \<Rightarrow> bool" where
  "js_string_less [] [] = False"
| "js_string_less [] (d # t) = True"
| "js_string_less (c # s) [] = False"
| "js_string_less (c # s) (d # t) =
     ((of_char c :: nat) < of_char d \<or> (c = d \<and> js_string_less s t))"

text \<open>Two messages mapped in the same millisecond, for the examples: the random
  strings differ under \<open>sample_clock\<close> and coincide under \<open>stuck_clock\<close>.\<close>

definition sample_clock :: "nat \<Rightarrow> clock_sample" where
  "sample_clock i =
     \<lparr>now_id = 1700000000000,
      random_base36 = (if i = 0 then ''0.zk3m9x2qp0a'' else ''0.4f7h1c8d2e5''),
      now_timestamp = 1700000000000\<rparr>"

definition stuck_clock :: "nat \<Rightarrow> clock_sample" where
  "stuck_clock i =
     \<lparr>now_id = 1700000000000, random_base36 = ''0.zk3m9x2qp0a'', now_timestamp = 1700000000000\<rparr>"

definition two_messages :: "hook_message list" where
  "two_messages =
     [\<lparr>hm_source = ''fetch-hook'', hm_type = ''fetch-response'',
       hm_data = \<lparr>d_timestamp = None, d_url = Some ''https://a.example/items'', d_rest = JNull\<rparr>\<rparr>,
      \<lparr>hm_source = ''fetch-hook'', hm_type = ''fetch-response'',
       hm_data = \<lparr>d_timestamp = None, d_url = Some ''https://a.example/cart'', d_rest = JNull\<rparr>\<rparr>]"

subsection \<open>getEvents on a heap\<close>

text \<open>
  Arrays and event objects are reference values.  To say what a caller can reach through
  the array \<open>getEvents\<close> returns, the buffer is placed in a store: an array cell holds
  references (or holes), an event cell holds an event.
\<close>

type_synonym addr = nat

datatype 'e heap_cell = ArrayCell "addr option list" | EventCell 'e

record 'e heap =
  cells :: "addr \<Rightarrow> 'e heap_cell option"
  next_addr :: addr

text \<open>A hook object: its field \<open>events\<close> refers to an array.\<close>

record recorder_obj =
  events_ref :: addr

definition alloc :: "'e heap \<Rightarrow> 'e heap_cell \<Rightarrow> addr \<times> 'e heap" where
  "alloc h c = (next_addr h, h\<lparr>cells := (cells h)(next_addr h \<mapsto> c), next_addr := Suc (next_addr h)\<rparr>)"

definition array_at :: "'e heap \<Rightarrow> addr \<Rightarrow> addr option list" where
  "array_at h a = (case cells h a of Some (ArrayCell xs) \<Rightarrow> xs | _ \<Rightarrow> [])"

text \<open>\<open>return [...this.events]\<close>: a new array with the elements of the old one.\<close>

definition heap_getEvents :: "'e heap \<Rightarrow> recorder_obj \<Rightarrow> addr \<times> 'e heap" where
  "heap_getEvents h r = alloc h (ArrayCell (array_at h (events_ref r)))"

text \<open>\<open>this.events.push(event); if (this.events.length > cap) this.events.shift();\<close> on
  the array in place, for an event object at \<open>p\<close>.\<close>

definition heap_recordEvent :: "nat \<Rightarrow> 'e heap \<Rightarrow> recorder_obj \<Rightarrow> addr \<Rightarrow> 'e heap" where
  "heap_recordEvent cap h r p =
     (let pushed = array_at h (events_ref r) @ [Some p];
          kept = (if length pushed > cap then tl pushed else pushed)
      in h\<lparr>cells := (cells h)(events_ref r \<mapsto> ArrayCell kept)\<rparr>)"

text \<open>What the recorder holds: the events its array refers to, in order.\<close>

definition recorder_contents :: "'e heap \<Rightarrow> recorder_obj \<Rightarrow> 'e option list" where
  "recorder_contents h r =
     map (\<lambda>x. case x of
                None \<Rightarrow> None
              | Some p \<Rightarrow> (case cells h p of Some (EventCell e) \<Rightarrow> Some e | _ \<Rightarrow> None))
         (array_at h (events_ref r))"

text \<open>
  What a caller can do to an array \<open>snap\<close> it holds: \<open>snap[i] = v\<close>, \<open>push\<close>, \<open>pop\<close>,
  \<open>shift\<close>, \<open>unshift\<close>, \<open>snap.length = n\<close>, and a write to a field of the object at
  \<open>snap[i]\<close>.
\<close>

datatype 'e mutation =
    SetIndex nat "addr option"
  | Push "addr option"
  | Pop
  | Shift
  | Unshift "addr option"
  | SetLength nat
  | UpdateElement nat "'e \<Rightarrow> 'e"

definition js_set_index :: "'a option list \<Rightarrow> nat \<Rightarrow> 'a option \<Rightarrow> 'a option list" where
  "js_set_index xs i v =
     (if i < length xs then xs[i := v] else xs @ replicate (i - length xs) None @ [v])"

definition apply_mutation :: "addr \<Rightarrow> 'e heap \<Rightarrow> 'e mutation \<Rightarrow> 'e heap" where
  "apply_mutation a h m =
     (case cells h a of
        Some (ArrayCell xs) \<Rightarrow>
          (case m of
             SetIndex i v \<Rightarrow> h\<lparr>cells := (cells h)(a \<mapsto> ArrayCell (js_set_index xs i v))\<rparr>
           | Push v \<Rightarrow> h\<lparr>cells := (cells h)(a \<mapsto> ArrayCell (xs @ [v]))\<rparr>
           | Pop \<Rightarrow> h\<lparr>cells := (cells h)(a \<mapsto> ArrayCell (butlast xs))\<rparr>
           | Shift \<Rightarrow> h\<lparr>cells := (cells h)(a \<mapsto> ArrayCell (tl xs))\<rparr>
           | Unshift v \<Rightarrow> h\<lparr>cells := (cells h)(a \<mapsto> ArrayCell (v # xs))\<rparr>
           | SetLength n \<Rightarrow>
               h\<lparr>cells := (cells h)(a \<mapsto> ArrayCell (take n xs @ replicate (n - length xs) None))\<rparr>
           | UpdateElement i f \<Rightarrow>
               (if i < length xs
                then (case xs ! i of
                        None \<Rightarrow> h
                      | Some p \<Rightarrow>
                          (case cells h p of
                             Some (EventCell e) \<Rightarrow> h\<lparr>cells := (cells h)(p \<mapsto> EventCell (f e))\<rparr>
                           | _ \<Rightarrow> h))
                else h))
      | _ \<Rightarrow> h)"

fun structural :: "'e mutation \<Rightarrow> bool" where
  "structural (UpdateElement i f) = False"
| "structural m = True"

text \<open>A recorder in a heap: its array is allocated, and so is everything it refers to.\<close>

definition recorder_ok :: "'e heap \<Rightarrow> recorder_obj \<Rightarrow> bool" where
  "recorder_ok h r =
     (events_ref r < next_addr h \<and>
      (case cells h (events_ref r) of Some (ArrayCell xs) \<Rightarrow> True | _ \<Rightarrow> False) \<and>
      list_all (\<lambda>x. case x of None \<Rightarrow> True | Some p \<Rightarrow> p < next_addr h)
        (array_at h (events_ref r)))"

text \<open>
  A hook in a heap for the examples: the constructor allocates the empty array, a
  wrapper allocates one event object and records it.
\<close>

definition sample_event :: http_event where
  "sample_event =
     \<lparr>url = ''https://a.example/items'', http_method = ''GET'', requestHeaders = [],
      requestBody = JNull, responseHeaders = [(''content-type'', ''application/json'')],
      responseBody = JObj [], status = 200, timestamp = 1700000000000\<rparr>"

definition sample_recorder :: recorder_obj where
  "sample_recorder = \<lparr>events_ref = 0\<rparr>"

definition sample_heap :: "http_event heap" where
  "sample_heap =
     (let h0 = \<lparr>cells = Map.empty, next_addr = 0\<rparr>;
          h1 = snd (alloc h0 (ArrayCell []));
          made = alloc h1 (EventCell sample_event)
      in heap_recordEvent 1000 (snd made) sample_recorder (fst made))"

section \<open>Properties\<close>

subsection \<open>Bounded buffers\<close>

lemma keep_last_snoc:
  "(let zs = drop (length ys - c) ys @ [e] in if length zs > c then tl zs else zs)
     = drop (length (ys @ [e]) - c) (ys @ [e])"
proof -
  consider "length ys < c" | "c = 0" | "0 < c" "c \<le> length ys" by linarith
  then show ?thesis
  proof cases
    case 1
    then show ?thesis by (simp add: Let_def)
  next
    case 2
    then show ?thesis by (simp add: Let_def)
  next
    case 3
    define d where "d = drop (length ys - c) ys"
    have len: "length d = c" using 3 by (simp add: d_def)
    then have "d \<noteq> []" using 3 by auto
    then have "tl (d @ [e]) = tl d @ [e]" by simp
    also have "tl d = drop (Suc (length ys - c)) ys" by (simp add: d_def drop_Suc tl_drop)
    also have "drop (Suc (length ys - c)) ys @ [e] = drop (Suc (length ys - c)) (ys @ [e])"
      using 3 by simp
    finally have "tl (d @ [e]) = drop (Suc (length ys - c)) (ys @ [e])" .
    moreover have "length (ys @ [e]) - c = Suc (length ys - c)" using 3 by simp
    ultimately show ?thesis using len by (simp add: Let_def d_def)
  qed
qed

lemma xhr_recordEvent_step:
  "xhr_events (xhr_recordEvent h e) =
     (let zs = xhr_events h @ [e] in if length zs > maxEvents h then tl zs else zs)"
  "maxEvents (xhr_recordEvent h e) = maxEvents h"
  by (simp_all add: xhr_recordEvent_def Let_def)

lemma fetch_recordEvent_step:
  "fetch_events (fetch_recordEvent h e) =
     (let zs = fetch_events h @ [e] in if length zs > 1000 then tl zs else zs)"
  by (simp add: fetch_recordEvent_def Let_def)

lemma ws_recordEvent_step:
  "ws_events (ws_recordEvent h e) =
     (let zs = ws_events h @ [e] in if length zs > 2000 then tl zs else zs)"
  by (simp add: ws_recordEvent_def Let_def)

lemma xhr_maxEvents_foldl: "maxEvents (foldl xhr_recordEvent h es) = maxEvents h"
  by (induction es rule: rev_induct) (simp_all add: xhr_recordEvent_step)

lemma xhr_events_foldl:
  "xhr_events h = [] \<Longrightarrow>
   xhr_events (foldl xhr_recordEvent h es) = drop (length es - maxEvents h) es"
proof (induction es rule: rev_induct)
  case Nil
  then show ?case by simp
next
  case (snoc e es)
  then have "xhr_events (foldl xhr_recordEvent h (es @ [e])) =
        (let zs = drop (length es - maxEvents h) es @ [e]
         in if length zs > maxEvents h then tl zs else zs)"
    by (simp only: foldl_append foldl.simps xhr_recordEvent_step xhr_maxEvents_foldl)
  then show ?case by (simp only: keep_last_snoc)
qed

lemma fetch_events_foldl:
  "fetch_events h = [] \<Longrightarrow>
   fetch_events (foldl fetch_recordEvent h es) = drop (length es - 1000) es"
proof (induction es rule: rev_induct)
  case Nil
  then show ?case by simp
next
  case (snoc e es)
  then have "fetch_events (foldl fetch_recordEvent h (es @ [e])) =
        (let zs = drop (length es - 1000) es @ [e]
         in if length zs > 1000 then tl zs else zs)"
    by (simp only: foldl_append foldl.simps fetch_recordEvent_step)
  then show ?case by (simp only: keep_last_snoc)
qed

lemma ws_events_foldl:
  "ws_events h = [] \<Longrightarrow>
   ws_events (foldl ws_recordEvent h es) = drop (length es - 2000) es"
proof (induction es rule: rev_induct)
  case Nil
  then show ?case by simp
next
  case (snoc e es)
  then have "ws_events (foldl ws_recordEvent h (es @ [e])) =
        (let zs = drop (length es - 2000) es @ [e]
         in if length zs > 2000 then tl zs else zs)"
    by (simp only: foldl_append foldl.simps ws_recordEvent_step)
  then show ?case by (simp only: keep_last_snoc)
qed

text \<open>
  Claim C3.  A recorder that starts empty and records \<open>N\<close> events holds exactly
  \<open>min N C\<close> of them, the most recent \<open>C\<close> in arrival order: for the XHR hook with any
  capacity \<open>C\<close> in \<open>maxEvents\<close> (1000 when constructed), for the Fetch hook with 1000 and
  for the WebSocket hook with 2000.
\<close>

theorem recorder_keeps_most_recent:
  "xhr_getEvents (foldl xhr_recordEvent (new_xhr_hook\<lparr>maxEvents := C\<rparr>) xs) = drop (length xs - C) xs \<and>
   length (xhr_getEvents (foldl xhr_recordEvent (new_xhr_hook\<lparr>maxEvents := C\<rparr>) xs)) = min (length xs) C \<and>
   xhr_getEvents (foldl xhr_recordEvent new_xhr_hook xs) = drop (length xs - 1000) xs \<and>
   length (xhr_getEvents (foldl xhr_recordEvent new_xhr_hook xs)) = min (length xs) 1000 \<and>
   fetch_getEvents (foldl fetch_recordEvent new_fetch_hook fs) = drop (length fs - 1000) fs \<and>
   length (fetch_getEvents (foldl fetch_recordEvent new_fetch_hook fs)) = min (length fs) 1000 \<and>
   ws_getEvents (foldl ws_recordEvent (new_ws_hook :: 'ws ws_hook) ws) = drop (length ws - 2000) ws \<and>
   length (ws_getEvents (foldl ws_recordEvent (new_ws_hook :: 'ws ws_hook) ws)) = min (length ws) 2000"
proof -
  have c: "xhr_events (foldl xhr_recordEvent (new_xhr_hook\<lparr>maxEvents := C\<rparr>) xs) = drop (length xs - C) xs"
    using xhr_events_foldl [of "new_xhr_hook\<lparr>maxEvents := C\<rparr>" xs] by (simp add: new_xhr_hook_def)
  have x: "xhr_events (foldl xhr_recordEvent new_xhr_hook xs) = drop (length xs - 1000) xs"
    using xhr_events_foldl [of new_xhr_hook xs] by (simp add: new_xhr_hook_def)
  have f: "fetch_events (foldl fetch_recordEvent new_fetch_hook fs) = drop (length fs - 1000) fs"
    using fetch_events_foldl [of new_fetch_hook fs] by (simp add: new_fetch_hook_def)
  have w: "ws_events (foldl ws_recordEvent (new_ws_hook :: 'ws ws_hook) ws) = drop (length ws - 2000) ws"
    using ws_events_foldl [of "new_ws_hook :: 'ws ws_hook" ws] by (simp add: new_ws_hook_def)
  show ?thesis
    unfolding xhr_getEvents_def fetch_getEvents_def ws_getEvents_def c x f w by auto
qed

text \<open>The example of the specification: capacity 3 and five events.\<close>

lemma recorder_example:
  "xhr_getEvents (foldl xhr_recordEvent (new_xhr_hook\<lparr>maxEvents := 3\<rparr>) [e1, e2, e3, e4, e5])
     = [e3, e4, e5]"
  by (simp add: xhr_getEvents_def xhr_recordEvent_def new_xhr_hook_def Let_def)

subsection \<open>Extraction of message types\<close>

lemma takeWhile_all: "list_all P (takeWhile P xs)"
  by (induction xs) simp_all

lemma match_here_group:
  "match_here kw cls s = Some g \<Longrightarrow> g \<noteq> [] \<and> list_all cls g"
  by (auto simp: match_here_def Let_def takeWhile_all split: if_splits)

lemma regex_match_group:
  "regex_match kw cls s = Some g \<Longrightarrow> g \<noteq> [] \<and> list_all cls g"
  by (induction kw cls s rule: regex_match.induct)
     (auto dest: match_here_group split: option.splits)

lemma packageMatch_nonempty: "packageMatch l = Some p \<Longrightarrow> p \<noteq> []"
  using regex_match_group [of "''package''" is_package_char l p] by (simp add: packageMatch_def)

lemma messageMatch_name: "messageMatch l = Some n \<Longrightarrow> n \<noteq> [] \<and> list_all is_word n"
  using regex_match_group [of "''message''" is_word l n] by (simp add: messageMatch_def)

lemma current_package_snoc:
  "current_package (ls @ [l]) =
     (case packageMatch l of Some p \<Rightarrow> Some p | None \<Rightarrow> current_package ls)"
  by (simp add: current_package_def List.map_filter_def split: option.splits)

lemma current_package_nonempty: "current_package ls = Some p \<Longrightarrow> p \<noteq> []"
proof (induction ls arbitrary: p rule: rev_induct)
  case Nil
  then show ?case by (simp add: current_package_def List.map_filter_def)
next
  case (snoc l ls)
  then show ?case
    by (auto simp: current_package_snoc dest: packageMatch_nonempty split: option.splits)
qed

lemma declared_types_snoc:
  "declared_types (ls @ [l]) =
     declared_types ls @
       (case messageMatch l of
          None \<Rightarrow> []
        | Some name \<Rightarrow> [qualify (current_package (ls @ [l])) name])"
proof -
  have eq: "map (\<lambda>i. case messageMatch ((ls @ [l]) ! i) of
                    None \<Rightarrow> []
                  | Some name \<Rightarrow> [qualify (current_package (take (Suc i) (ls @ [l]))) name])
            [0..<length ls]
        = map (\<lambda>i. case messageMatch (ls ! i) of
                    None \<Rightarrow> []
                  | Some name \<Rightarrow> [qualify (current_package (take (Suc i) ls)) name])
            [0..<length ls]"
    by (rule map_cong) (simp_all add: nth_append split: option.splits)
  show ?thesis
    by (simp add: declared_types_def eq del: map_eq_conv split: option.splits)
qed

lemma extract_line_step:
  "extract_line (case current_package ls of None \<Rightarrow> [] | Some p \<Rightarrow> p, declared_types ls) l =
     (case current_package (ls @ [l]) of None \<Rightarrow> [] | Some p \<Rightarrow> p, declared_types (ls @ [l]))"
proof (cases "current_package (ls @ [l])")
  case None
  then show ?thesis
    by (auto simp: extract_line_def current_package_snoc declared_types_snoc Let_def
        split: option.splits)
next
  case (Some p)
  then have "p \<noteq> []" by (rule current_package_nonempty)
  with Some show ?thesis
    by (auto simp: extract_line_def current_package_snoc declared_types_snoc Let_def
        split: option.splits)
qed

lemma extract_line_loop:
  "foldl extract_line ([], []) ls =
     (case current_package ls of None \<Rightarrow> [] | Some p \<Rightarrow> p, declared_types ls)"
proof (induction ls rule: rev_induct)
  case Nil
  then show ?case by (simp add: current_package_def declared_types_def List.map_filter_def)
next
  case (snoc l ls)
  then show ?case by (simp only: foldl_append foldl.simps extract_line_step)
qed

text \<open>
  Claim C9.  For every schema text, \<open>extractMessageTypes\<close> returns, in line order, one
  entry per line that matches \<open>message <Name>\<close>, qualified as \<open>package.Name\<close> by the
  package declaration seen last up to that line and left bare when none was seen.
  Nesting plays no part: a message declared on a line of its own inside another message
  is qualified by the package only, and a second message on the same line gives no entry.
\<close>

theorem extractMessageTypes_declared:
  "extractMessageTypes protoContent = declared_types (split_on (CHR 0x0A) protoContent) \<and>
   extractMessageTypes
     ''package shop.v1;
message Order {
  message Line { int32 qty = 1; }
}'' = [''shop.v1.Order'', ''shop.v1.Line''] \<and>
   extractMessageTypes
     ''message Outer { message Inner { } }
message Last { }'' = [''Outer'', ''Last'']"
proof -
  have "extractMessageTypes protoContent = declared_types (split_on (CHR 0x0A) protoContent)"
    by (simp add: extractMessageTypes_def extract_line_loop)
  moreover have "extractMessageTypes
     ''package shop.v1;
message Order {
  message Line { int32 qty = 1; }
}'' = [''shop.v1.Order'', ''shop.v1.Line'']"
    by code_simp
  moreover have "extractMessageTypes
     ''message Outer { message Inner { } }
message Last { }'' = [''Outer'', ''Last'']"
    by code_simp
  ultimately show ?thesis by blast
qed

subsection \<open>Trial decoding\<close>

lemma find_append_first:
  "find P (xs @ ys) = (case find P xs of None \<Rightarrow> find P ys | Some x \<Rightarrow> Some x)"
  by (induction xs) simp_all

lemma find_map_pair:
  "find P (map (Pair k) xs) = map_option (Pair k) (find (\<lambda>x. P (k, x)) xs)"
  by (induction xs) simp_all

lemma try_messageTypes_find:
  "map_get (parsers up) pname = Some root \<Longrightarrow>
   try_messageTypes pb root pname (ArrayBuffer buffer) mts =
     (case find (\<lambda>a. structural_decode pb up buffer a \<noteq> None) (map (Pair pname) mts) of
        None \<Rightarrow> None
      | Some a \<Rightarrow> Some \<lparr>success = True, data = structural_decode pb up buffer a,
                        messageType = Some (snd a), protoName = Some (fst a)\<rparr>)"
  by (induction mts) (auto simp: structural_decode_def simp del: not_None_eq split: sum.splits)

lemma find_no_parser:
  "map_get (parsers up) pname = None \<Longrightarrow>
   find (\<lambda>a. structural_decode pb up buffer a \<noteq> None) (map (Pair pname) mts) = None"
  by (induction mts) (simp_all add: structural_decode_def del: not_None_eq)

lemma try_candidates_find:
  "try_candidates pb (parsers up) (ArrayBuffer buffer) cs =
     (case find (\<lambda>a. structural_decode pb up buffer a \<noteq> None) (attempts cs) of
        None \<Rightarrow> decode_failed
      | Some a \<Rightarrow> \<lparr>success = True, data = structural_decode pb up buffer a,
                   messageType = Some (snd a), protoName = Some (fst a)\<rparr>)"
proof (induction cs)
  case Nil
  then show ?case by (simp add: attempts_def)
next
  case (Cons entry cs)
  have split: "attempts (entry # cs) = map (Pair (fst entry)) (messageTypes (snd entry)) @ attempts cs"
    by (simp add: attempts_def)
  show ?case
  proof (cases "map_get (parsers up) (fst entry)")
    case None
    then show ?thesis
      using Cons by (simp add: split find_append_first find_no_parser del: not_None_eq)
  next
    case (Some root)
    then show ?thesis
      using Cons by (simp add: split find_append_first try_messageTypes_find del: not_None_eq split: option.splits)
  qed
qed




lemma map_get_map_set: "map_get (map_set k v m) k' = (if k' = k then Some v else map_get m k')"
  by (induction m) auto





lemma map_keys_map_set:
  "map_keys (map_set k v m) = (if k \<in> set (map_keys m) then map_keys m else map_keys m @ [k])"
  by (induction m) (force simp: map_keys_def)+



lemma structural_decode_refused:
  "refuses_ArrayBuffer pb \<Longrightarrow> structural_decode pb up buffer a = None"
proof -
  assume r: "refuses_ArrayBuffer pb"
  have d: "\<exists>e. pb_decode pb ty (ArrayBuffer buffer) = Inl e" for ty
    using r by (simp add: refuses_ArrayBuffer_def)
  have "\<exists>e. decodeMessage pb root mt (ArrayBuffer buffer) = Inl e" for root mt
  proof (cases "pb_lookupType pb root mt")
    case (Inl e)
    then show ?thesis by (simp add: decodeMessage_def)
  next
    case (Inr ty)
    from d [of ty] obtain e where "pb_decode pb ty (ArrayBuffer buffer) = Inl e" ..
    with Inr show ?thesis by (simp add: decodeMessage_def)
  qed
  then have "decodeMessage pb root mt (ArrayBuffer buffer) \<noteq> Inr v" for root mt v
    by (metis sum.distinct(1))
  then show ?thesis
    by (simp add: structural_decode_def split: option.splits sum.splits)
qed

lemma tryParse_refused:
  "refuses_ArrayBuffer pb \<Longrightarrow> tryParse pb up buffer domain = decode_failed"
proof -
  assume r: "refuses_ArrayBuffer pb"
  have "find (\<lambda>a. structural_decode pb up buffer a \<noteq> None) (attempts (candidates up domain)) = None"
    by (simp add: find_None_iff structural_decode_refused [OF r])
  then show ?thesis by (simp add: tryParse_def try_candidates_find del: not_None_eq)
qed

text \<open>
  Claim C1.  \<open>tryParse\<close> returns a result for every input and every registry, whatever
  the library calls throw, since every error of \<open>decodeMessage\<close> is caught: the result is
  \<open>{success: false}\<close> or a success with data, message type and schema name.  What it
  passes on is the \<open>ArrayBuffer\<close> it was called with; a library whose \<open>decode\<close> refuses an
  \<open>ArrayBuffer\<close>, as the reader of protobufjs does, throws at every attempt, so the result
  is \<open>{success: false}\<close> for every input and for the empty buffer in particular.  For
  any library at all, the empty input gives \<open>{success: false}\<close> exactly when no attempt
  decodes it, and always when nothing is registered.
\<close>

theorem tryParse_total:
  "(tryParse pb up buffer domain = decode_failed \<or>
    (\<exists>d mt name. tryParse pb up buffer domain =
       \<lparr>success = True, data = Some d, messageType = Some mt, protoName = Some name\<rparr>)) \<and>
   (refuses_ArrayBuffer pb \<longrightarrow>
      tryParse pb up [] domain = decode_failed \<and> tryParse pb up buffer domain = decode_failed) \<and>
   (tryParse pb up [] domain = decode_failed) =
     list_all (\<lambda>a. structural_decode pb up [] a = None) (attempts (candidates up domain)) \<and>
   tryParse pb new_universal_parser [] domain = decode_failed"
proof -
  let ?P = "\<lambda>b a. structural_decode pb up b a \<noteq> None"
  have shape: "tryParse pb up b domain = decode_failed \<or>
    (\<exists>d mt name. tryParse pb up b domain =
       \<lparr>success = True, data = Some d, messageType = Some mt, protoName = Some name\<rparr>)" for b
  proof (cases "find (?P b) (attempts (candidates up domain))")
    case None
    then show ?thesis by (simp add: tryParse_def try_candidates_find del: not_None_eq)
  next
    case (Some a)
    then have "?P b a" by (auto simp: find_Some_iff simp del: not_None_eq)
    then obtain d where "structural_decode pb up b a = Some d" by auto
    with Some show ?thesis by (simp add: tryParse_def try_candidates_find del: not_None_eq)
  qed
  have refused: "refuses_ArrayBuffer pb \<longrightarrow>
      tryParse pb up [] domain = decode_failed \<and> tryParse pb up buffer domain = decode_failed"
    by (simp add: tryParse_refused)
  have empty: "(tryParse pb up [] domain = decode_failed) =
     list_all (\<lambda>a. structural_decode pb up [] a = None) (attempts (candidates up domain))"
  proof (cases "find (?P []) (attempts (candidates up domain))")
    case None
    then have "tryParse pb up [] domain = decode_failed"
      by (simp add: tryParse_def try_candidates_find del: not_None_eq)
    moreover from None
    have "list_all (\<lambda>a. structural_decode pb up [] a = None) (attempts (candidates up domain))"
      by (auto simp: find_None_iff list_all_iff)
    ultimately show ?thesis by simp
  next
    case (Some a)
    then have "a \<in> set (attempts (candidates up domain))" "?P [] a"
      by (auto simp: find_Some_iff simp del: not_None_eq)
    with Some show ?thesis
      by (auto simp: tryParse_def try_candidates_find list_all_iff decode_failed_def
          simp del: not_None_eq)
  qed
  have none: "tryParse pb new_universal_parser [] domain = decode_failed"
    by (simp add: tryParse_def candidates_def new_universal_parser_def)
  from shape [of buffer] refused empty none show ?thesis by blast
qed

theorem tryParse_total_witness:
  "refuses_ArrayBuffer sample_protobufjs \<and>
   map_keys (protoDefinitions demo_registry) = [''bilibili'', ''demo''] \<and>
   tryParse sample_protobufjs demo_registry [] None = decode_failed \<and>
   tryParse sample_protobufjs demo_registry [8, 5] None = decode_failed"
proof -
  have r: "refuses_ArrayBuffer sample_protobufjs"
    by (simp add: refuses_ArrayBuffer_def sample_protobufjs_def)
  have k: "map_keys (protoDefinitions demo_registry) = [''bilibili'', ''demo'']"
    by code_simp
  from tryParse_total [of sample_protobufjs demo_registry "[8, 5]" None] r
  have "tryParse sample_protobufjs demo_registry [] None = decode_failed"
    and "tryParse sample_protobufjs demo_registry [8, 5] None = decode_failed"
    by blast+
  with r k show ?thesis by (intro conjI)
qed

subsection \<open>The fetch wrappers and their callers\<close>

lemma basic_fetch_transparent:
  "fst (basic_fetch OriginalFetch input init) = OriginalFetch input init"
  by (simp add: basic_fetch_def split: sum.splits)

lemma advanced_fetch_original_throws:
  "interceptors h = [] \<Longrightarrow> OriginalFetch input init = Inl error \<Longrightarrow>
   fst (advanced_fetch OriginalFetch json_parse now h input init) = Inl error"
  by (simp add: advanced_fetch_def Let_def)

lemma advanced_fetch_body_read:
  "interceptors h = [] \<Longrightarrow> OriginalFetch input init = Inr response \<Longrightarrow>
   read_responseBody json_parse response = Inr body \<Longrightarrow>
   fst (advanced_fetch OriginalFetch json_parse now h input init) = Inr response"
  by (simp add: advanced_fetch_def Let_def)

text \<open>
  Claim C4, where the advanced wrapper departs from it.  With no interceptor registered
  and an original \<open>fetch\<close> that returned a response, the wrapper awaits
  \<open>clonedResponse.json()\<close> inside its \<open>try\<close> when the content type says JSON; if the body
  is not JSON, the \<open>catch\<close> block posts the error and throws it again, so the caller gets
  a \<open>SyntaxError\<close> in place of the response, and nothing is recorded.  The basic wrapper
  hands every response and every error through (\<open>basic_fetch_transparent\<close> above), and so
  does the advanced wrapper when the body can be read
  (\<open>advanced_fetch_body_read\<close>, \<open>advanced_fetch_original_throws\<close>).
\<close>

theorem advanced_fetch_json_failure:
  "interceptors h = [] \<Longrightarrow> OriginalFetch input init = Inr response \<Longrightarrow>
   str_includes (response_contentType response) ''application/json'' \<Longrightarrow>
   json_parse (resp_body response) = Inl error \<Longrightarrow>
   fst (advanced_fetch OriginalFetch json_parse now h input init) = Inl error \<and>
   fst (advanced_fetch OriginalFetch json_parse now h input init) \<noteq> OriginalFetch input init \<and>
   fst (snd (advanced_fetch OriginalFetch json_parse now h input init)) = h"
  by (simp add: advanced_fetch_def read_responseBody_def Let_def)

theorem advanced_fetch_json_failure_witness:
  "interceptors new_fetch_hook = [] \<and>
   str_includes
     (response_contentType
        \<lparr>resp_status = 200, resp_statusText = ''OK'',
         resp_headers = [(''content-type'', ''application/json'')], resp_body = []\<rparr>)
     ''application/json'' \<and>
   sample_json_parse [] = Inl (ErrorObj ''SyntaxError'' ''Unexpected end of JSON input'') \<and>
   fst (advanced_fetch
          (\<lambda>input init. Inr \<lparr>resp_status = 200, resp_statusText = ''OK'',
                               resp_headers = [(''content-type'', ''application/json'')],
                               resp_body = []\<rparr>)
          sample_json_parse 1700000000000 new_fetch_hook (InputString ''/api/items'') None)
     = Inl (ErrorObj ''SyntaxError'' ''Unexpected end of JSON input'')"
proof -
  let ?response = "\<lparr>resp_status = 200, resp_statusText = ''OK'',
         resp_headers = [(''content-type'', ''application/json'')], resp_body = []\<rparr>"
  have h: "interceptors new_fetch_hook = []" by (simp add: new_fetch_hook_def)
  have ct: "str_includes (response_contentType ?response) ''application/json''"
    by (simp add: response_contentType_def)
  have jp: "sample_json_parse (resp_body ?response)
              = Inl (ErrorObj ''SyntaxError'' ''Unexpected end of JSON input'')"
    by (simp add: sample_json_parse_def)
  from advanced_fetch_json_failure
         [where h = new_fetch_hook and OriginalFetch = "\<lambda>input init. Inr ?response"
            and input = "InputString ''/api/items''" and init = None and response = ?response
            and json_parse = sample_json_parse and now = 1700000000000, OF h _ ct jp]
       h ct jp
  show ?thesis by simp
qed

subsection \<open>Filtering\<close>

lemma array_filter_total:
  "(\<And>x. x \<in> set xs \<Longrightarrow> cb x = Inr (P x)) \<Longrightarrow> array_filter cb xs = Inr (filter P xs)"
  by (induction xs) simp_all

lemma array_filter_subseq:
  "array_filter cb xs = Inr ys \<Longrightarrow> subseq ys xs"
proof (induction xs arbitrary: ys)
  case Nil
  then show ?case by simp
next
  case (Cons x xs)
  then show ?case by (auto split: sum.splits if_splits)
qed

lemma method_absent_passes: "\<not> str_truthy (ev_method event) \<Longrightarrow> \<not> method_rejects options event"
  by (simp add: method_rejects_def)

lemma status_absent_passes: "ev_status event = None \<Longrightarrow> \<not> status_rejects options event"
  by (simp add: status_rejects_def split: option.splits status_spec.splits)

lemma timestamp_absent_passes: "\<not> num_truthy (ev_timestamp event) \<Longrightarrow> \<not> time_rejects options event"
  by (simp add: time_rejects_def split: option.splits)

lemma drop_method_frame:
  "sources_rejects (options\<lparr>opt_method := None\<rparr>) event = sources_rejects options event"
  "url_rejects rt (options\<lparr>opt_method := None\<rparr>) event = url_rejects rt options event"
  "method_rejects (options\<lparr>opt_method := None\<rparr>) event = False"
  "status_rejects (options\<lparr>opt_method := None\<rparr>) event = status_rejects options event"
  "time_rejects (options\<lparr>opt_method := None\<rparr>) event = time_rejects options event"
  "keyword_rejects sd se (options\<lparr>opt_method := None\<rparr>) event = keyword_rejects sd se options event"
  "contentType_rejects (options\<lparr>opt_method := None\<rparr>) event = contentType_rejects options event"
  by (simp_all add: sources_rejects_def url_rejects_def method_rejects_def status_rejects_def
      time_rejects_def keyword_rejects_def contentType_rejects_def str_truthy_def)

lemma drop_status_frame:
  "sources_rejects (options\<lparr>statusCode := None\<rparr>) event = sources_rejects options event"
  "url_rejects rt (options\<lparr>statusCode := None\<rparr>) event = url_rejects rt options event"
  "method_rejects (options\<lparr>statusCode := None\<rparr>) event = method_rejects options event"
  "status_rejects (options\<lparr>statusCode := None\<rparr>) event = False"
  "time_rejects (options\<lparr>statusCode := None\<rparr>) event = time_rejects options event"
  "keyword_rejects sd se (options\<lparr>statusCode := None\<rparr>) event = keyword_rejects sd se options event"
  "contentType_rejects (options\<lparr>statusCode := None\<rparr>) event = contentType_rejects options event"
  by (simp_all add: sources_rejects_def url_rejects_def method_rejects_def status_rejects_def
      time_rejects_def keyword_rejects_def contentType_rejects_def)

lemma drop_time_frame:
  "sources_rejects (options\<lparr>timeRange := None\<rparr>) event = sources_rejects options event"
  "url_rejects rt (options\<lparr>timeRange := None\<rparr>) event = url_rejects rt options event"
  "method_rejects (options\<lparr>timeRange := None\<rparr>) event = method_rejects options event"
  "status_rejects (options\<lparr>timeRange := None\<rparr>) event = status_rejects options event"
  "time_rejects (options\<lparr>timeRange := None\<rparr>) event = False"
  "keyword_rejects sd se (options\<lparr>timeRange := None\<rparr>) event = keyword_rejects sd se options event"
  "contentType_rejects (options\<lparr>timeRange := None\<rparr>) event = contentType_rejects options event"
  by (simp_all add: sources_rejects_def url_rejects_def method_rejects_def status_rejects_def
      time_rejects_def keyword_rejects_def contentType_rejects_def)

lemma event_passes_drop_method:
  "\<not> method_rejects options event \<Longrightarrow>
   event_passes rt sd se options event = event_passes rt sd se (options\<lparr>opt_method := None\<rparr>) event"
  by (simp add: event_passes_def drop_method_frame cong: sum.case_cong if_cong)

lemma event_passes_drop_status:
  "\<not> status_rejects options event \<Longrightarrow>
   event_passes rt sd se options event = event_passes rt sd se (options\<lparr>statusCode := None\<rparr>) event"
  by (simp add: event_passes_def drop_status_frame cong: sum.case_cong if_cong)

lemma event_passes_drop_time:
  "\<not> time_rejects options event \<Longrightarrow>
   event_passes rt sd se options event = event_passes rt sd se (options\<lparr>timeRange := None\<rparr>) event"
  by (simp add: event_passes_def drop_time_frame cong: sum.case_cong if_cong)

text \<open>
  Claim C10.  An event whose method, status or timestamp is absent passes the
  constraint on that field whatever the filter asks: the block of the constraint does
  not reject it, the callback gives the answer it gives without the constraint, and when
  only such constraints are present the event is retained.
\<close>

theorem missing_field_passes:
  "(ev_method event = None \<longrightarrow>
      \<not> method_rejects options event \<and>
      event_passes rt sd se options event =
        event_passes rt sd se (options\<lparr>opt_method := None\<rparr>) event) \<and>
   (ev_status event = None \<longrightarrow>
      \<not> status_rejects options event \<and>
      event_passes rt sd se options event =
        event_passes rt sd se (options\<lparr>statusCode := None\<rparr>) event) \<and>
   (ev_timestamp event = None \<longrightarrow>
      \<not> time_rejects options event \<and>
      event_passes rt sd se options event =
        event_passes rt sd se (options\<lparr>timeRange := None\<rparr>) event) \<and>
   (ev_method event = None \<and> ev_status event = None \<and> ev_timestamp event = None \<and>
    sources options = None \<and> urlPattern options = None \<and> keyword options = None \<and>
    contentType options = None \<longrightarrow>
      EventFilter_filter rt sd se [event] options = Inr [event])"
proof (intro conjI impI)
  assume m: "ev_method event = None"
  then show nm: "\<not> method_rejects options event"
    by (simp add: method_absent_passes str_truthy_def)
  then show "event_passes rt sd se options event =
        event_passes rt sd se (options\<lparr>opt_method := None\<rparr>) event"
    by (rule event_passes_drop_method)
next
  assume "ev_status event = None"
  then show ns: "\<not> status_rejects options event" by (rule status_absent_passes)
  then show "event_passes rt sd se options event =
        event_passes rt sd se (options\<lparr>statusCode := None\<rparr>) event"
    by (rule event_passes_drop_status)
next
  assume "ev_timestamp event = None"
  then show nt: "\<not> time_rejects options event"
    by (simp add: timestamp_absent_passes num_truthy_def)
  then show "event_passes rt sd se options event =
        event_passes rt sd se (options\<lparr>timeRange := None\<rparr>) event"
    by (rule event_passes_drop_time)
next
  assume a: "ev_method event = None \<and> ev_status event = None \<and> ev_timestamp event = None \<and>
    sources options = None \<and> urlPattern options = None \<and> keyword options = None \<and>
    contentType options = None"
  then have "event_passes rt sd se options event = Inr True"
    by (simp add: event_passes_def sources_rejects_def url_rejects_def method_rejects_def
        status_absent_passes time_rejects_def keyword_rejects_def contentType_rejects_def
        str_truthy_def num_truthy_def split: option.splits)
  then show "EventFilter_filter rt sd se [event] options = Inr [event]"
    by (simp add: EventFilter_filter_def)
qed


theorem missing_field_passes_witness:
  "ev_method event_without_method = None \<and> ev_status event_without_method = None \<and>
   ev_timestamp event_without_method = None \<and>
   EventFilter_filter sample_regex_test sample_stringify_data sample_stringify_event
     [event_without_method]
     \<lparr>sources = None, urlPattern = None, opt_method = Some ''POST'',
      statusCode = Some (StatusExact 200),
      timeRange = Some \<lparr>range_start = 1700000000000, range_end = 1700000060000\<rparr>,
      keyword = None, contentType = None\<rparr>
   = Inr [event_without_method]"
  using missing_field_passes
    [of event_without_method
        "\<lparr>sources = None, urlPattern = None, opt_method = Some ''POST'',
          statusCode = Some (StatusExact 200),
          timeRange = Some \<lparr>range_start = 1700000000000, range_end = 1700000060000\<rparr>,
          keyword = None, contentType = None\<rparr>"
        sample_regex_test sample_stringify_data sample_stringify_event]
  by (simp add: event_without_method_def)

lemma toUpperCase_POST: "toUpperCase ''POST'' = ''POST''"
  by (simp add: toUpperCase_def char_toUpper_def)

lemma method_only_passes:
  "event_passes rt sd se
     \<lparr>sources = None, urlPattern = None, opt_method = Some m, statusCode = None,
      timeRange = None, keyword = None, contentType = None\<rparr> e =
   Inr (case ev_method e of
          None \<Rightarrow> True
        | Some em \<Rightarrow> m = [] \<or> em = [] \<or> toUpperCase em = toUpperCase m)"
  by (auto simp: event_passes_def sources_rejects_def url_rejects_def method_rejects_def
      status_rejects_def time_rejects_def keyword_rejects_def contentType_rejects_def
      str_truthy_def split: option.splits)

lemma keyword_absent_rejected:
  "k \<noteq> [] \<Longrightarrow> \<not> str_includes (searchText sd se e) (toLowerCase k) \<Longrightarrow>
   event_passes rt sd se
     \<lparr>sources = None, urlPattern = None, opt_method = Some m, statusCode = None,
      timeRange = None, keyword = Some k, contentType = None\<rparr> e = Inr False"
  by (simp add: event_passes_def sources_rejects_def url_rejects_def method_rejects_def
      status_rejects_def time_rejects_def keyword_rejects_def contentType_rejects_def
      str_truthy_def split: option.splits)

text \<open>
  Claim C5, as the code has it.  With \<open>{method: "POST"}\<close> the filter returns, in their
  original relative order, the events whose method is POST in any letter case together
  with the events that have no method (absent or empty); adding a keyword that occurs in
  the searched text of no event gives the empty list.
\<close>

theorem filter_by_method:
  "EventFilter_filter rt sd se events
     \<lparr>sources = None, urlPattern = None, opt_method = Some ''POST'', statusCode = None,
      timeRange = None, keyword = None, contentType = None\<rparr>
     = Inr (filter (\<lambda>e. case ev_method e of
                           None \<Rightarrow> True
                         | Some em \<Rightarrow> em = [] \<or> toUpperCase em = ''POST'') events) \<and>
   subseq (filter (\<lambda>e. case ev_method e of
                           None \<Rightarrow> True
                         | Some em \<Rightarrow> em = [] \<or> toUpperCase em = ''POST'') events) events \<and>
   (k \<noteq> [] \<and> list_all (\<lambda>e. \<not> str_includes (searchText sd se e) (toLowerCase k)) events \<longrightarrow>
    EventFilter_filter rt sd se events
      \<lparr>sources = None, urlPattern = None, opt_method = Some ''POST'', statusCode = None,
       timeRange = None, keyword = Some k, contentType = None\<rparr> = Inr [])"
proof (intro conjI impI)
  let ?P = "\<lambda>e. case ev_method e of None \<Rightarrow> True | Some em \<Rightarrow> em = [] \<or> toUpperCase em = ''POST''"
  show "EventFilter_filter rt sd se events
     \<lparr>sources = None, urlPattern = None, opt_method = Some ''POST'', statusCode = None,
      timeRange = None, keyword = None, contentType = None\<rparr> = Inr (filter ?P events)"
    unfolding EventFilter_filter_def
    by (rule array_filter_total) (simp add: method_only_passes toUpperCase_POST split: option.splits)
  show "subseq (filter ?P events) events" by simp
next
  assume a: "k \<noteq> [] \<and> list_all (\<lambda>e. \<not> str_includes (searchText sd se e) (toLowerCase k)) events"
  have "array_filter (event_passes rt sd se
      \<lparr>sources = None, urlPattern = None, opt_method = Some ''POST'', statusCode = None,
       timeRange = None, keyword = Some k, contentType = None\<rparr>) events
      = Inr (filter (\<lambda>e. False) events)"
    by (rule array_filter_total) (use a in \<open>simp add: keyword_absent_rejected list_all_iff\<close>)
  then show "EventFilter_filter rt sd se events
      \<lparr>sources = None, urlPattern = None, opt_method = Some ''POST'', statusCode = None,
       timeRange = None, keyword = Some k, contentType = None\<rparr> = Inr []"
    by (simp add: EventFilter_filter_def)
qed


theorem filter_by_method_witness:
  "''checkout'' \<noteq> [] \<and>
   list_all (\<lambda>e. \<not> str_includes (searchText sample_stringify_data sample_stringify_event e)
                      (toLowerCase ''checkout''))
     [event_without_method, event_get, event_post] \<and>
   EventFilter_filter sample_regex_test sample_stringify_data sample_stringify_event
     [event_without_method, event_get, event_post]
     \<lparr>sources = None, urlPattern = None, opt_method = Some ''POST'', statusCode = None,
      timeRange = None, keyword = Some ''checkout'', contentType = None\<rparr> = Inr []"
proof -
  have pre: "''checkout'' \<noteq> [] \<and>
     list_all (\<lambda>e. \<not> str_includes (searchText sample_stringify_data sample_stringify_event e)
                      (toLowerCase ''checkout''))
       [event_without_method, event_get, event_post]"
    by code_simp
  with filter_by_method
         [of sample_regex_test sample_stringify_data sample_stringify_event
             "[event_without_method, event_get, event_post]" "''checkout''"]
  show ?thesis by blast
qed

text \<open>
  Claim C5 as stated fails: an event without a method is returned by the POST filter.
\<close>

theorem filter_by_method_counterexample:
  "EventFilter_filter sample_regex_test sample_stringify_data sample_stringify_event
     [event_without_method, event_get, event_post]
     \<lparr>sources = None, urlPattern = None, opt_method = Some ''POST'', statusCode = None,
      timeRange = None, keyword = None, contentType = None\<rparr>
     = Inr [event_without_method, event_post] \<and>
   ev_method event_without_method = None"
  by code_simp

subsection \<open>Connections of the WebSocket hook\<close>

lemma map_get_map_delete: "map_get (map_delete k m) k' = (if k' = k then None else map_get m k')"
  by (induction m) (auto simp: map_delete_def)

lemma map_keys_map_delete: "map_keys (map_delete k m) = filter (\<lambda>k'. k' \<noteq> k) (map_keys m)"
  by (induction m) (auto simp: map_delete_def map_keys_def)

lemma map_size_keys: "map_size m = length (map_keys m)"
  by (simp add: map_size_def map_keys_def)

lemma filter_absent: "k \<notin> set ks \<Longrightarrow> filter (\<lambda>k'. k' \<noteq> k) ks = ks"
  by (induction ks) auto

lemma length_remove_distinct:
  "distinct ks \<Longrightarrow> k \<in> set ks \<Longrightarrow> length (filter (\<lambda>k'. k' \<noteq> k) ks) = length ks - 1"
proof (induction ks)
  case Nil
  then show ?case by simp
next
  case (Cons a ks)
  show ?case
  proof (cases "a = k")
    case True
    with Cons.prems show ?thesis by (simp add: filter_absent)
  next
    case False
    with Cons.prems have "k \<in> set ks" "distinct ks" by auto
    then have "length (filter (\<lambda>k'. k' \<noteq> k) ks) = length ks - 1" "0 < length ks"
      using Cons.IH by (auto simp: length_pos_if_in_set)
    with False show ?thesis by simp
  qed
qed

lemma ws_recordEvent_connections: "connections (ws_recordEvent h e) = connections h"
  by (simp add: ws_recordEvent_def Let_def)

lemma ws_recordEvent_counter: "connectionIdCounter (ws_recordEvent h e) = connectionIdCounter h"
  by (simp add: ws_recordEvent_def Let_def)

text \<open>
  Claim C6, as the code has it.  The constructor stores the new socket in
  \<open>connections\<close> under the id it took from the counter, and a new id makes
  \<open>getActiveConnections\<close> one larger; the \<open>close\<close> listener removes the entry of the id
  it captured, which makes \<open>getActiveConnections\<close> one smaller when the entry was there;
  the \<open>error\<close> listener records its event and leaves \<open>connections\<close> as it is.
\<close>

theorem connection_tracking:
  "(WebSocketHook ows h u = (Inr (c, ws), h') \<longrightarrow>
      c = connectionIdCounter h \<and> map_get (connections h') c = Some ws \<and>
      (c \<notin> set (map_keys (connections h)) \<longrightarrow>
         getActiveConnections h' = getActiveConnections h + 1)) \<and>
   map_get (connections (fst (ws_on_close now u c h code reason))) c = None \<and>
   (distinct (map_keys (connections h)) \<and> c \<in> set (map_keys (connections h)) \<longrightarrow>
      getActiveConnections (fst (ws_on_close now u c h code reason)) = getActiveConnections h - 1) \<and>
   connections (fst (ws_on_error now u h)) = connections h \<and>
   getActiveConnections (fst (ws_on_error now u h)) = getActiveConnections h"
proof (intro conjI impI)
  assume w: "WebSocketHook ows h u = (Inr (c, ws), h')"
  then obtain s where s: "ows u = Inr s"
    by (cases "ows u") (auto simp: WebSocketHook_def)
  with w have c: "c = connectionIdCounter h" and ws: "ws = s"
    and h': "connections h' = map_set c s (connections h)"
    by (auto simp: WebSocketHook_def Let_def)
  show "c = connectionIdCounter h" by (rule c)
  show "map_get (connections h') c = Some ws" by (simp add: h' ws map_get_map_set)
  assume "c \<notin> set (map_keys (connections h))"
  then show "getActiveConnections h' = getActiveConnections h + 1"
    by (simp add: getActiveConnections_def map_size_keys h' map_keys_map_set)
next
  show "map_get (connections (fst (ws_on_close now u c h code reason))) c = None"
    by (simp add: ws_on_close_def Let_def ws_recordEvent_connections map_get_map_delete)
next
  assume "distinct (map_keys (connections h)) \<and> c \<in> set (map_keys (connections h))"
  then show "getActiveConnections (fst (ws_on_close now u c h code reason)) = getActiveConnections h - 1"
    by (simp add: ws_on_close_def Let_def ws_recordEvent_connections getActiveConnections_def
        map_size_keys map_keys_map_delete length_remove_distinct)
next
  show "connections (fst (ws_on_error now u h)) = connections h"
    by (simp add: ws_on_error_def Let_def ws_recordEvent_connections)
  then show "getActiveConnections (fst (ws_on_error now u h)) = getActiveConnections h"
    by (simp add: getActiveConnections_def)
qed


theorem connection_tracking_witness:
  "WebSocketHook sample_WebSocket new_ws_hook ''wss://a.example/live'' =
     (Inr (0, ''wss://a.example/live''), one_connection) \<and>
   getActiveConnections (new_ws_hook :: string ws_hook) = 0 \<and>
   getActiveConnections one_connection = 1 \<and>
   map_get (connections one_connection) 0 = Some ''wss://a.example/live'' \<and>
   distinct (map_keys (connections one_connection)) \<and>
   0 \<in> set (map_keys (connections one_connection)) \<and>
   getActiveConnections
     (fst (ws_on_close 1700000000000 ''wss://a.example/live'' 0 one_connection 1000 ''done'')) = 0"
proof -
  have w: "WebSocketHook sample_WebSocket new_ws_hook ''wss://a.example/live'' =
     (Inr (0, ''wss://a.example/live''), one_connection)"
    by (simp add: one_connection_def WebSocketHook_def sample_WebSocket_def new_ws_hook_def
        Let_def)
  have n: "0 \<notin> set (map_keys (connections (new_ws_hook :: string ws_hook)))"
    by (simp add: new_ws_hook_def map_keys_def)
  have z: "getActiveConnections (new_ws_hook :: string ws_hook) = 0"
    by (simp add: new_ws_hook_def getActiveConnections_def map_size_def)
  have d: "distinct (map_keys (connections one_connection)) \<and>
           0 \<in> set (map_keys (connections one_connection))"
    by (simp add: one_connection_def WebSocketHook_def sample_WebSocket_def new_ws_hook_def
        Let_def map_keys_def)
  note made = connection_tracking
         [of sample_WebSocket new_ws_hook "''wss://a.example/live''" 0 "''wss://a.example/live''"
             one_connection, THEN conjunct1, THEN mp, OF w]
  from made have g: "map_get (connections one_connection) 0 = Some ''wss://a.example/live''"
    by (rule conjunct2 [THEN conjunct1])
  from made n have "getActiveConnections one_connection = getActiveConnections (new_ws_hook :: string ws_hook) + 1"
    by blast
  with z have a: "getActiveConnections one_connection = 1" by simp
  note closed = connection_tracking
         [where h = one_connection and c = 0 and now = 1700000000000
            and u = "''wss://a.example/live''" and code = 1000 and reason = "''done''",
          THEN conjunct2, THEN conjunct2, THEN conjunct1, THEN mp, OF d]
  with a have c: "getActiveConnections
     (fst (ws_on_close 1700000000000 ''wss://a.example/live'' 0 one_connection 1000 ''done'')) = 0"
    by simp
  from w z a g d c show ?thesis by (intro conjI) (simp_all only: simp_thms)
qed

text \<open>
  Claim C6 as stated fails for the error notification: after it has fired, and until a
  \<open>close\<close> notification follows, the connection is still counted.
\<close>

theorem connection_after_error_counterexample:
  "getActiveConnections (fst (ws_on_error 1700000000000 ''wss://a.example/live'' one_connection)) = 1 \<and>
   map_get (connections (fst (ws_on_error 1700000000000 ''wss://a.example/live'' one_connection))) 0
     = Some ''wss://a.example/live''"
  by (simp add: one_connection_def WebSocketHook_def sample_WebSocket_def new_ws_hook_def
      ws_on_error_def ws_recordEvent_def getActiveConnections_def map_size_def Let_def)


subsection \<open>Identifiers\<close>

lemma js_increment_below: "n < two_53 \<Longrightarrow> js_increment n = Suc n"
  by (simp add: js_increment_def)

lemma WebSocketHook_counter:
  "WebSocketHook ows h u = (r, h') \<Longrightarrow>
   (case r of
      Inl e \<Rightarrow> h' = h
    | Inr p \<Rightarrow> fst p = connectionIdCounter h \<and>
               connectionIdCounter h' = js_increment (connectionIdCounter h))"
  by (cases "ows u") (auto simp: WebSocketHook_def Let_def)

lemma ws_step_other:
  "\<not> is_construct (snd a) \<Longrightarrow>
   snd (ws_step ows jp os h a) = [] \<and>
   connectionIdCounter (fst (ws_step ows jp os h a)) = connectionIdCounter h"
  by (cases "snd a")
     (simp_all add: ws_step_def Let_def ws_on_open_def ws_on_message_def ws_send_def
        ws_on_close_def ws_on_error_def ws_recordEvent_counter)

lemma ws_step_construct:
  "is_construct (snd a) \<Longrightarrow>
   (snd (ws_step ows jp os h a) = [] \<and>
    connectionIdCounter (fst (ws_step ows jp os h a)) = connectionIdCounter h) \<or>
   (snd (ws_step ows jp os h a) = [connectionIdCounter h] \<and>
    connectionIdCounter (fst (ws_step ows jp os h a)) = js_increment (connectionIdCounter h))"
proof -
  assume "is_construct (snd a)"
  then obtain u where u: "snd a = Construct u" by (cases "snd a") auto
  obtain r h' where w: "WebSocketHook ows h u = (r, h')" by (cases "WebSocketHook ows h u")
  from WebSocketHook_counter [OF w] u w show ?thesis
    by (cases r) (auto simp: ws_step_def Let_def split: prod.splits)
qed

lemma ws_run_ids:
  "connectionIdCounter h + constructs acts \<le> two_53 \<Longrightarrow>
   snd (ws_run ows jp os h acts) =
     [connectionIdCounter h ..< connectionIdCounter (fst (ws_run ows jp os h acts))] \<and>
   connectionIdCounter h \<le> connectionIdCounter (fst (ws_run ows jp os h acts)) \<and>
   connectionIdCounter (fst (ws_run ows jp os h acts)) \<le> connectionIdCounter h + constructs acts"
proof (induction acts arbitrary: h)
  case Nil
  then show ?case by (simp add: constructs_def)
next
  case (Cons a acts)
  let ?h1 = "fst (ws_step ows jp os h a)"
  let ?c = "connectionIdCounter h"
  let ?c2 = "connectionIdCounter (fst (ws_run ows jp os ?h1 acts))"
  show ?case
  proof (cases "is_construct (snd a)")
    case False
    then have s: "snd (ws_step ows jp os h a) = []" "connectionIdCounter ?h1 = ?c"
      using ws_step_other [of a ows jp os h] by simp_all
    from False Cons.prems have "connectionIdCounter ?h1 + constructs acts \<le> two_53"
      by (simp add: s constructs_def)
    from Cons.IH [OF this] False s show ?thesis by (simp add: Let_def constructs_def)
  next
    case True
    then have k: "constructs (a # acts) = Suc (constructs acts)" by (simp add: constructs_def)
    with Cons.prems have below: "?c < two_53" by simp
    from ws_step_construct [OF True, of ows jp os h]
    consider (failed) "snd (ws_step ows jp os h a) = []" "connectionIdCounter ?h1 = ?c"
      | (made) "snd (ws_step ows jp os h a) = [?c]" "connectionIdCounter ?h1 = Suc ?c"
      using js_increment_below [OF below] by auto
    then show ?thesis
    proof cases
      case failed
      with Cons.prems k have "connectionIdCounter ?h1 + constructs acts \<le> two_53"
        by simp
      from Cons.IH [OF this] failed k show ?thesis by (simp add: Let_def)
    next
      case made
      with Cons.prems k have "connectionIdCounter ?h1 + constructs acts \<le> two_53"
        by simp
      from Cons.IH [OF this] made k show ?thesis by (simp add: Let_def upt_conv_Cons)
    qed
  qed
qed

text \<open>
  Claim C8, as the code has it.  The hooks' events carry no identifier.  The only
  sequence numbers are the connection ids of the WebSocket hook: while no more than
  \<open>2^53\<close> connections have been attempted, the ids given out in any run of the hook are
  the consecutive numbers from the counter's value on, so they are strictly increasing
  in creation order and never reused.  (The id of a stored event is a string made of
  the clock reading and a random suffix; see the counterexample.)
\<close>

theorem connection_ids_increasing:
  "connectionIdCounter h + constructs acts \<le> two_53 \<Longrightarrow>
   snd (ws_run ows jp os h acts) =
     [connectionIdCounter h ..< connectionIdCounter (fst (ws_run ows jp os h acts))] \<and>
   sorted_wrt (<) (snd (ws_run ows jp os h acts)) \<and>
   distinct (snd (ws_run ows jp os h acts))"
proof -
  assume "connectionIdCounter h + constructs acts \<le> two_53"
  from ws_run_ids [OF this, of ows jp os]
  have eq: "snd (ws_run ows jp os h acts) =
     [connectionIdCounter h ..< connectionIdCounter (fst (ws_run ows jp os h acts))]"
    by simp
  have "sorted_wrt (<) [connectionIdCounter h ..< connectionIdCounter (fst (ws_run ows jp os h acts))]"
    by (simp add: sorted_wrt_upt)
  moreover have "distinct [connectionIdCounter h ..< connectionIdCounter (fst (ws_run ows jp os h acts))]"
    by simp
  ultimately show ?thesis using eq by simp
qed

theorem connection_ids_increasing_witness:
  "connectionIdCounter (new_ws_hook :: string ws_hook) + constructs sample_session \<le> two_53 \<and>
   snd (ws_run sample_WebSocket sample_json_parse (\<lambda>ws d. Inr ()) new_ws_hook sample_session)
     = [0, 1, 2] \<and>
   sorted_wrt (<)
     (snd (ws_run sample_WebSocket sample_json_parse (\<lambda>ws d. Inr ()) new_ws_hook sample_session)) \<and>
   distinct
     (snd (ws_run sample_WebSocket sample_json_parse (\<lambda>ws d. Inr ()) new_ws_hook sample_session))"
proof -
  have pre: "connectionIdCounter (new_ws_hook :: string ws_hook) + constructs sample_session \<le> two_53"
    by (simp add: new_ws_hook_def constructs_def sample_session_def two_53_def)
  have ids: "snd (ws_run sample_WebSocket sample_json_parse (\<lambda>ws d. Inr ()) new_ws_hook sample_session)
     = [0, 1, 2]"
    by (simp add: sample_session_def ws_step_def WebSocketHook_def sample_WebSocket_def
        new_ws_hook_def js_increment_def two_53_def Let_def ws_on_open_def ws_on_message_def
        ws_on_close_def ws_recordEvent_def)
  from connection_ids_increasing [OF pre, of sample_WebSocket sample_json_parse "\<lambda>ws d. Inr ()"]
  have "sorted_wrt (<)
     (snd (ws_run sample_WebSocket sample_json_parse (\<lambda>ws d. Inr ()) new_ws_hook sample_session)) \<and>
   distinct
     (snd (ws_run sample_WebSocket sample_json_parse (\<lambda>ws d. Inr ()) new_ws_hook sample_session))"
    by (rule conjunct2)
  with pre ids show ?thesis by (intro conjI) (simp_all only: simp_thms)
qed

text \<open>
  Claim C8 as stated fails for the ids \<open>storeEvents\<close> assigns: of two events mapped in
  the same millisecond the later one can get the smaller id, and when the random
  strings coincide the two ids are equal.
\<close>

theorem stored_ids_counterexample:
  "map se_id (storeEvents sample_clock [] two_messages) =
     [''1700000000000-zk3m9x2qp'', ''1700000000000-4f7h1c8d2''] \<and>
   js_string_less ''1700000000000-4f7h1c8d2'' ''1700000000000-zk3m9x2qp'' \<and>
   map se_id (storeEvents stuck_clock [] two_messages) =
     [''1700000000000-zk3m9x2qp'', ''1700000000000-zk3m9x2qp'']"
  by code_simp

subsection \<open>Snapshots\<close>

lemma apply_mutation_frame:
  "structural m \<Longrightarrow> b \<noteq> a \<Longrightarrow> cells (apply_mutation a h m) b = cells h b"
  by (cases m) (auto simp: apply_mutation_def split: option.splits heap_cell.splits)

lemma apply_mutations_frame:
  "list_all structural ms \<Longrightarrow> b \<noteq> a \<Longrightarrow> cells (foldl (apply_mutation a) h ms) b = cells h b"
  by (induction ms arbitrary: h) (simp_all add: apply_mutation_frame)

lemma heap_getEvents_fresh:
  "fst (heap_getEvents h r) = next_addr h"
  "b \<noteq> next_addr h \<Longrightarrow> cells (snd (heap_getEvents h r)) b = cells h b"
  "cells (snd (heap_getEvents h r)) (next_addr h) = Some (ArrayCell (array_at h (events_ref r)))"
  by (simp_all add: heap_getEvents_def alloc_def)

lemma recorder_contents_cong:
  "cells h' (events_ref r) = cells h (events_ref r) \<Longrightarrow>
   (\<And>p. Some p \<in> set (array_at h (events_ref r)) \<Longrightarrow> cells h' p = cells h p) \<Longrightarrow>
   recorder_contents h' r = recorder_contents h r"
proof -
  assume same: "cells h' (events_ref r) = cells h (events_ref r)"
    and elems: "\<And>p. Some p \<in> set (array_at h (events_ref r)) \<Longrightarrow> cells h' p = cells h p"
  have arr: "array_at h' (events_ref r) = array_at h (events_ref r)"
    by (simp add: array_at_def same)
  show ?thesis
    unfolding recorder_contents_def arr
    by (rule map_cong) (auto simp: elems split: option.splits)
qed

text \<open>
  Claim C7, as the code has it.  \<open>getEvents\<close> returns a new array that holds the same
  event objects.  Whatever the caller does to the structure of that array (assigning,
  pushing, popping, shifting, unshifting, truncating), the recorder's own array and the
  events it holds are unchanged.  The event objects are shared.
\<close>

theorem snapshot_structure_independent:
  "recorder_ok h r \<Longrightarrow> list_all structural ms \<Longrightarrow>
   fst (heap_getEvents h r) \<noteq> events_ref r \<and>
   array_at (snd (heap_getEvents h r)) (fst (heap_getEvents h r)) = array_at h (events_ref r) \<and>
   array_at (foldl (apply_mutation (fst (heap_getEvents h r))) (snd (heap_getEvents h r)) ms)
     (events_ref r) = array_at h (events_ref r) \<and>
   recorder_contents
     (foldl (apply_mutation (fst (heap_getEvents h r))) (snd (heap_getEvents h r)) ms) r
     = recorder_contents h r"
proof -
  assume ok: "recorder_ok h r" and ms: "list_all structural ms"
  let ?snap = "fst (heap_getEvents h r)"
  let ?h1 = "snd (heap_getEvents h r)"
  let ?h2 = "foldl (apply_mutation ?snap) ?h1 ms"
  have snap: "?snap = next_addr h" by (rule heap_getEvents_fresh)
  from ok have ref: "events_ref r < next_addr h"
    and below: "\<And>p. Some p \<in> set (array_at h (events_ref r)) \<Longrightarrow> p < next_addr h"
    by (auto simp: recorder_ok_def list_all_iff)
  have ne: "?snap \<noteq> events_ref r" using ref snap by simp
  have copy: "array_at ?h1 ?snap = array_at h (events_ref r)"
    by (simp add: array_at_def snap heap_getEvents_fresh)
  have keep: "cells ?h2 b = cells h b" if "b < next_addr h" for b
  proof -
    from that have "b \<noteq> ?snap" using snap by simp
    with ms have "cells ?h2 b = cells ?h1 b" by (rule apply_mutations_frame)
    also from that have "\<dots> = cells h b" by (simp add: heap_getEvents_fresh)
    finally show ?thesis .
  qed
  have arr: "array_at ?h2 (events_ref r) = array_at h (events_ref r)"
    by (simp add: array_at_def keep [OF ref])
  have "recorder_contents ?h2 r = recorder_contents h r"
    by (rule recorder_contents_cong) (simp_all add: keep ref below)
  with ne copy arr show ?thesis by simp
qed

lemma sample_heap_cells:
  "next_addr sample_heap = 2"
  "cells sample_heap 0 = Some (ArrayCell [Some 1])"
  "cells sample_heap (Suc 0) = Some (EventCell sample_event)"
  by (simp_all add: sample_heap_def sample_recorder_def alloc_def heap_recordEvent_def
      array_at_def Let_def)

lemma sample_heap_contents: "recorder_contents sample_heap sample_recorder = [Some sample_event]"
  by (simp add: recorder_contents_def array_at_def sample_recorder_def sample_heap_cells)

theorem snapshot_structure_independent_witness:
  "recorder_ok sample_heap sample_recorder \<and>
   list_all structural [Push None, SetIndex 0 None, Shift, SetLength 0 :: http_event mutation] \<and>
   recorder_contents
     (foldl (apply_mutation (fst (heap_getEvents sample_heap sample_recorder)))
        (snd (heap_getEvents sample_heap sample_recorder))
        [Push None, SetIndex 0 None, Shift, SetLength 0])
     sample_recorder = [Some sample_event]"
proof -
  have ok: "recorder_ok sample_heap sample_recorder"
    by (simp add: recorder_ok_def array_at_def sample_recorder_def sample_heap_cells)
  have ms: "list_all structural [Push None, SetIndex 0 None, Shift, SetLength 0 :: http_event mutation]"
    by simp
  from snapshot_structure_independent [OF ok ms]
  have "recorder_contents
     (foldl (apply_mutation (fst (heap_getEvents sample_heap sample_recorder)))
        (snd (heap_getEvents sample_heap sample_recorder))
        [Push None, SetIndex 0 None, Shift, SetLength 0])
     sample_recorder = recorder_contents sample_heap sample_recorder"
    by (elim conjE)
  with ok ms show ?thesis by (simp only: sample_heap_contents simp_thms)
qed

text \<open>
  Claim C7 as stated fails: a field written through an element of the returned array is
  written in the event the recorder holds.
\<close>

theorem snapshot_element_counterexample:
  "recorder_contents sample_heap sample_recorder = [Some sample_event] \<and>
   recorder_contents
     (apply_mutation (fst (heap_getEvents sample_heap sample_recorder))
        (snd (heap_getEvents sample_heap sample_recorder))
        (UpdateElement 0 (\<lambda>e. e\<lparr>url := ''https://changed.example/''\<rparr>)))
     sample_recorder = [Some (sample_event\<lparr>url := ''https://changed.example/''\<rparr>)] \<and>
   sample_event\<lparr>url := ''https://changed.example/''\<rparr> \<noteq> sample_event"
proof -
  have "sample_event\<lparr>url := ''https://changed.example/''\<rparr> \<noteq> sample_event"
    by (simp add: sample_event_def)
  moreover have "recorder_contents
     (apply_mutation (fst (heap_getEvents sample_heap sample_recorder))
        (snd (heap_getEvents sample_heap sample_recorder))
        (UpdateElement 0 (\<lambda>e. e\<lparr>url := ''https://changed.example/''\<rparr>)))
     sample_recorder = [Some (sample_event\<lparr>url := ''https://changed.example/''\<rparr>)]"
    by (simp add: recorder_contents_def array_at_def sample_recorder_def sample_heap_cells
        heap_getEvents_def alloc_def apply_mutation_def)
  ultimately show ?thesis by (simp only: sample_heap_contents simp_thms)
qed

end
